theory Spec2Isabelle
  imports Main
begin

section \<open>Dates\<close>

text \<open>
  A JavaScript \<open>Date\<close> is a time value: the number of milliseconds since
  1970-01-01T00:00:00Z. The model is an \<open>int\<close> holding that number. The local-time
  accessors of the source (\<open>getDate\<close>, \<open>setDate\<close>, \<open>getDay\<close>, \<open>setHours\<close>,
  \<open>getFullYear\<close>, \<open>setFullYear\<close>) are modelled for a host whose local time is UTC, so
  that a local day is exactly \<open>msPerDay\<close> milliseconds. Strings that do not parse to a
  date (\<open>Invalid Date\<close>) and time values outside the range of \<open>Date\<close> are not modelled:
  every date of the model is a valid time value.
\<close>

type_synonym date = int

definition msPerDay :: int where
  "msPerDay = 86400000"

text \<open>\<open>getDay()\<close>: 0 is Sunday, 6 is Saturday; 1970-01-01 was a Thursday.\<close>

definition getDay :: "date \<Rightarrow> int" where
  "getDay t = (t div msPerDay + 4) mod 7"

text \<open>\<open>result.setDate(result.getDate() + k)\<close>: the same time of day, \<open>k\<close> days later.\<close>

definition setDatePlus :: "date \<Rightarrow> int \<Rightarrow> date" where
  "setDatePlus t k = t + k * msPerDay"

section \<open>Business-day calculator\<close>

text \<open>
  The weekend test of the two loops is \<open>getDay() !== 0 && getDay() !== 6\<close>.
\<close>

definition isBusinessDay :: "date \<Rightarrow> bool" where
  "isBusinessDay t = (getDay t \<noteq> 0 \<and> getDay t \<noteq> 6)"

text \<open>
  The measures of the two \<open>while\<close> loops: the business days still to count, and the
  weekend days lying directly ahead of (behind) the current day.
\<close>

definition weekendAhead :: "date \<Rightarrow> nat" where
  "weekendAhead t = (if getDay t = 5 then 2 else if getDay t = 6 then 1 else 0)"

definition weekendBehind :: "date \<Rightarrow> nat" where
  "weekendBehind t = (if getDay t = 1 then 2 else if getDay t = 0 then 1 else 0)"

lemma msPerDay_pos: "0 < msPerDay"
  by (simp add: msPerDay_def)

lemma getDay_range: "0 \<le> getDay t \<and> getDay t < 7"
  by (simp add: getDay_def)

lemma week_cases:
  "0 \<le> g \<and> g < (7::int) \<Longrightarrow> g = 0 \<or> g = 1 \<or> g = 2 \<or> g = 3 \<or> g = 4 \<or> g = 5 \<or> g = 6"
  by arith

lemma getDay_cases:
  "getDay t = 0 \<or> getDay t = 1 \<or> getDay t = 2 \<or> getDay t = 3 \<or> getDay t = 4
    \<or> getDay t = 5 \<or> getDay t = 6"
  using week_cases [OF getDay_range [of t]] .

lemma mod7_shift: "(x + 3) mod 7 = (x + 4 + 6) mod (7::int)"
  by presburger

lemma getDay_next: "getDay (setDatePlus t 1) = (getDay t + 1) mod 7"
proof -
  have "(t + msPerDay) div msPerDay = t div msPerDay + 1"
    using msPerDay_pos by (simp add: div_add_self2)
  then have "getDay (setDatePlus t 1) = (t div msPerDay + 4 + 1) mod 7"
    by (simp add: getDay_def setDatePlus_def add.commute add.left_commute)
  also have "\<dots> = (getDay t + 1) mod 7"
    by (simp only: getDay_def mod_add_left_eq)
  finally show ?thesis .
qed

lemma getDay_prev: "getDay (setDatePlus t (- 1)) = (getDay t + 6) mod 7"
proof -
  have "(t - msPerDay) div msPerDay = t div msPerDay - 1"
    using msPerDay_pos div_add_self2 [of msPerDay "t - msPerDay"] by simp
  then have "getDay (setDatePlus t (- 1)) = (t div msPerDay + 3) mod 7"
    by (simp add: getDay_def setDatePlus_def add.commute)
  also have "\<dots> = (t div msPerDay + 4 + 6) mod 7"
    by (rule mod7_shift)
  also have "\<dots> = (getDay t + 6) mod 7"
    by (simp only: getDay_def mod_add_left_eq)
  finally show ?thesis .
qed

text \<open>
  \<open>addBusinessDays(date, days)\<close>: \<open>addLoop\<close> is the \<open>while (addedDays < days)\<close> loop
  on the state \<open>(result, addedDays)\<close>.
\<close>

function addLoop :: "nat \<Rightarrow> date \<Rightarrow> nat \<Rightarrow> date" where
  "addLoop days result addedDays =
     (if addedDays < days
      then (let result' = setDatePlus result 1
            in if getDay result' \<noteq> 0 \<and> getDay result' \<noteq> 6
               then addLoop days result' (addedDays + 1)
               else addLoop days result' addedDays)
      else result)"
  by pat_completeness auto
termination
proof (relation "measure (\<lambda>(days, result, addedDays). 3 * (days - addedDays) + weekendAhead result)")
  show "wf (measure (\<lambda>(days, result, addedDays). 3 * (days - addedDays) + weekendAhead result))"
    by simp
next
  fix days :: nat and result :: date and addedDays :: nat and x :: date
  assume "addedDays < days" and x: "x = setDatePlus result 1"
    and "getDay x \<noteq> 0 \<and> getDay x \<noteq> 6"
  then show "((days, x, addedDays + 1), (days, result, addedDays))
      \<in> measure (\<lambda>(days, result, addedDays). 3 * (days - addedDays) + weekendAhead result)"
    by (auto simp: weekendAhead_def)
next
  fix days :: nat and result :: date and addedDays :: nat and x :: date
  assume lt: "addedDays < days" and x: "x = setDatePlus result 1"
    and we: "\<not> (getDay x \<noteq> 0 \<and> getDay x \<noteq> 6)"
  have nx: "getDay x = (getDay result + 1) mod 7"
    using x getDay_next by simp
  have "weekendAhead x < weekendAhead result"
    using we nx getDay_cases [of result] unfolding weekendAhead_def by auto
  then show "((days, x, addedDays), (days, result, addedDays))
      \<in> measure (\<lambda>(days, result, addedDays). 3 * (days - addedDays) + weekendAhead result)"
    by simp
qed

definition addBusinessDays :: "date \<Rightarrow> nat \<Rightarrow> date" where
  "addBusinessDays d days = addLoop days d 0"

text \<open>\<open>subtractBusinessDays(date, days)\<close>, the same loop stepping backward.\<close>

function subLoop :: "nat \<Rightarrow> date \<Rightarrow> nat \<Rightarrow> date" where
  "subLoop days result subtractedDays =
     (if subtractedDays < days
      then (let result' = setDatePlus result (- 1)
            in if getDay result' \<noteq> 0 \<and> getDay result' \<noteq> 6
               then subLoop days result' (subtractedDays + 1)
               else subLoop days result' subtractedDays)
      else result)"
  by pat_completeness auto
termination
proof (relation "measure (\<lambda>(days, result, n). 3 * (days - n) + weekendBehind result)")
  show "wf (measure (\<lambda>(days, result, n). 3 * (days - n) + weekendBehind result))"
    by simp
next
  fix days :: nat and result :: date and subtractedDays :: nat and x :: date
  assume "subtractedDays < days" and x: "x = setDatePlus result (- 1)"
    and "getDay x \<noteq> 0 \<and> getDay x \<noteq> 6"
  then show "((days, x, subtractedDays + 1), (days, result, subtractedDays))
      \<in> measure (\<lambda>(days, result, n). 3 * (days - n) + weekendBehind result)"
    by (auto simp: weekendBehind_def)
next
  fix days :: nat and result :: date and subtractedDays :: nat and x :: date
  assume lt: "subtractedDays < days" and x: "x = setDatePlus result (- 1)"
    and we: "\<not> (getDay x \<noteq> 0 \<and> getDay x \<noteq> 6)"
  have nx: "getDay x = (getDay result + 6) mod 7"
    using x getDay_prev by simp
  have "weekendBehind x < weekendBehind result"
    using we nx getDay_cases [of result] unfolding weekendBehind_def by auto
  then show "((days, x, subtractedDays), (days, result, subtractedDays))
      \<in> measure (\<lambda>(days, result, n). 3 * (days - n) + weekendBehind result)"
    by simp
qed

definition subtractBusinessDays :: "date \<Rightarrow> nat \<Rightarrow> date" where
  "subtractBusinessDays d days = subLoop days d 0"

declare addLoop.simps [simp del] subLoop.simps [simp del]

text \<open>
  Proof devices, not code: the first business day strictly after (before) a date. The
  loops are shown to iterate them.
\<close>

definition nextBusinessDay :: "date \<Rightarrow> date" where
  "nextBusinessDay t =
     (if getDay t = 5 then setDatePlus t 3 else if getDay t = 6 then setDatePlus t 2
      else setDatePlus t 1)"

definition prevBusinessDay :: "date \<Rightarrow> date" where
  "prevBusinessDay t =
     (if getDay t = 1 then setDatePlus t (- 3) else if getDay t = 0 then setDatePlus t (- 2)
      else setDatePlus t (- 1))"

lemma setDatePlus_add: "setDatePlus (setDatePlus t j) k = setDatePlus t (j + k)"
  by (simp add: setDatePlus_def algebra_simps)

lemma setDatePlus_0: "setDatePlus t 0 = t"
  by (simp add: setDatePlus_def)

lemma getDay_plus: "getDay (setDatePlus t k) = (getDay t + k) mod 7"
proof -
  have "(t + k * msPerDay) div msPerDay = t div msPerDay + k"
    using msPerDay_pos by simp
  then have "getDay (setDatePlus t k) = (t div msPerDay + 4 + k) mod 7"
    by (simp add: getDay_def setDatePlus_def add.commute add.left_commute)
  also have "\<dots> = (getDay t + k) mod 7"
    by (simp only: getDay_def mod_add_left_eq)
  finally show ?thesis .
qed

lemma isBusinessDay_next: "isBusinessDay (nextBusinessDay t)"
  using getDay_cases [of t]
  by (auto simp: isBusinessDay_def nextBusinessDay_def getDay_plus)

lemma isBusinessDay_prev: "isBusinessDay (prevBusinessDay t)"
  using getDay_cases [of t]
  by (auto simp: isBusinessDay_def prevBusinessDay_def getDay_plus)

lemma next_prev: "isBusinessDay t \<Longrightarrow> nextBusinessDay (prevBusinessDay t) = t"
  using getDay_cases [of t]
  by (auto simp: isBusinessDay_def prevBusinessDay_def nextBusinessDay_def getDay_plus
      setDatePlus_add setDatePlus_0)

lemma addLoop_done: "days \<le> a \<Longrightarrow> addLoop days r a = r"
  by (simp add: addLoop.simps)

lemma addLoop_step:
  assumes "a < days"
  shows "addLoop days r a = addLoop days (nextBusinessDay r) (a + 1)"
proof -
  have one: "\<And>x. addLoop days x a =
      (if getDay (setDatePlus x 1) \<noteq> 0 \<and> getDay (setDatePlus x 1) \<noteq> 6
       then addLoop days (setDatePlus x 1) (a + 1) else addLoop days (setDatePlus x 1) a)"
    using assms by (subst addLoop.simps) (simp add: Let_def)
  show ?thesis
    using getDay_cases [of r]
    apply (elim disjE)
    apply (simp_all add: nextBusinessDay_def one [of r] one [of "setDatePlus r 1"] one [of "setDatePlus r 2"] getDay_plus setDatePlus_add)
    done
qed

lemma addLoop_funpow: "addLoop days r a = (nextBusinessDay ^^ (days - a)) r"
proof (induction "days - a" arbitrary: r a)
  case 0
  then show ?case by (simp add: addLoop_done)
next
  case (Suc k)
  then have lt: "a < days" and k: "k = days - (a + 1)" by simp_all
  have "addLoop days r a = addLoop days (nextBusinessDay r) (a + 1)"
    using lt by (rule addLoop_step)
  also have "\<dots> = (nextBusinessDay ^^ k) (nextBusinessDay r)"
    using Suc.hyps(1) [OF k] k by simp
  also have "\<dots> = (nextBusinessDay ^^ (days - a)) r"
    using Suc.hyps(2) [symmetric] by (simp add: funpow_swap1)
  finally show ?case .
qed

lemma subLoop_done: "days \<le> a \<Longrightarrow> subLoop days r a = r"
  by (simp add: subLoop.simps)

lemma subLoop_step:
  assumes "a < days"
  shows "subLoop days r a = subLoop days (prevBusinessDay r) (a + 1)"
proof -
  have one: "\<And>x. subLoop days x a =
      (if getDay (setDatePlus x (- 1)) \<noteq> 0 \<and> getDay (setDatePlus x (- 1)) \<noteq> 6
       then subLoop days (setDatePlus x (- 1)) (a + 1) else subLoop days (setDatePlus x (- 1)) a)"
    using assms by (subst subLoop.simps) (simp add: Let_def)
  show ?thesis
    using getDay_cases [of r]
    apply (elim disjE)
    apply (simp_all add: prevBusinessDay_def one [of r] one [of "setDatePlus r (- 1)"]
        one [of "setDatePlus r (- 2)"] getDay_plus setDatePlus_add)
    done
qed

lemma subLoop_funpow: "subLoop days r a = (prevBusinessDay ^^ (days - a)) r"
proof (induction "days - a" arbitrary: r a)
  case 0
  then show ?case by (simp add: subLoop_done)
next
  case (Suc k)
  then have lt: "a < days" and k: "k = days - (a + 1)" by simp_all
  have "subLoop days r a = subLoop days (prevBusinessDay r) (a + 1)"
    using lt by (rule subLoop_step)
  also have "\<dots> = (prevBusinessDay ^^ k) (prevBusinessDay r)"
    using Suc.hyps(1) [OF k] k by simp
  also have "\<dots> = (prevBusinessDay ^^ (days - a)) r"
    using Suc.hyps(2) [symmetric] by (simp add: funpow_swap1)
  finally show ?case .
qed

lemma addBusinessDays_funpow: "addBusinessDays d n = (nextBusinessDay ^^ n) d"
  by (simp add: addBusinessDays_def addLoop_funpow)

lemma subtractBusinessDays_funpow: "subtractBusinessDays d n = (prevBusinessDay ^^ n) d"
  by (simp add: subtractBusinessDays_def subLoop_funpow)

lemma addBusinessDays_0: "addBusinessDays d 0 = d"
  by (simp add: addBusinessDays_funpow)

lemma addBusinessDays_Suc: "addBusinessDays d (Suc n) = nextBusinessDay (addBusinessDays d n)"
  by (simp add: addBusinessDays_funpow)

lemma subtractBusinessDays_0: "subtractBusinessDays d 0 = d"
  by (simp add: subtractBusinessDays_funpow)

lemma subtractBusinessDays_Suc:
  "subtractBusinessDays d (Suc n) = prevBusinessDay (subtractBusinessDays d n)"
  by (simp add: subtractBusinessDays_funpow)

lemma addBusinessDays_business: "0 < n \<Longrightarrow> isBusinessDay (addBusinessDays d n)"
  by (cases n) (simp_all add: addBusinessDays_Suc isBusinessDay_next)

lemma subtractBusinessDays_business: "0 < n \<Longrightarrow> isBusinessDay (subtractBusinessDays d n)"
  by (cases n) (simp_all add: subtractBusinessDays_Suc isBusinessDay_prev)

lemma nextBusinessDay_gt: "t < nextBusinessDay t"
  using msPerDay_pos by (simp add: nextBusinessDay_def setDatePlus_def)

lemma prevBusinessDay_lt: "prevBusinessDay t < t"
  using msPerDay_pos by (simp add: prevBusinessDay_def setDatePlus_def)

lemma addBusinessDays_ge: "d \<le> addBusinessDays d n"
proof (induction n)
  case 0
  show ?case by (simp add: addBusinessDays_0)
next
  case (Suc n)
  then show ?case
    using nextBusinessDay_gt [of "addBusinessDays d n"] by (simp add: addBusinessDays_Suc)
qed

lemma addBusinessDays_gt: "0 < n \<Longrightarrow> d < addBusinessDays d n"
  using nextBusinessDay_gt [of "addBusinessDays d (n - 1)"] addBusinessDays_ge [of d "n - 1"]
  by (cases n) (simp_all add: addBusinessDays_Suc)

lemma subtractBusinessDays_le: "subtractBusinessDays d n \<le> d"
proof (induction n)
  case 0
  show ?case by (simp add: subtractBusinessDays_0)
next
  case (Suc n)
  then show ?case
    using prevBusinessDay_lt [of "subtractBusinessDays d n"]
    by (simp add: subtractBusinessDays_Suc)
qed

lemma add_subtract_inverse:
  "isBusinessDay d \<Longrightarrow> addBusinessDays (subtractBusinessDays d n) n = d"
proof (induction n)
  case 0
  show ?case by (simp add: addBusinessDays_0 subtractBusinessDays_0)
next
  case (Suc n)
  have b: "isBusinessDay (subtractBusinessDays d n)"
    using Suc.prems by (cases n) (simp_all add: subtractBusinessDays_0 subtractBusinessDays_business)
  have "addBusinessDays (subtractBusinessDays d (Suc n)) (Suc n)
      = (nextBusinessDay ^^ n) (nextBusinessDay (prevBusinessDay (subtractBusinessDays d n)))"
    by (simp add: addBusinessDays_funpow subtractBusinessDays_Suc funpow_swap1)
  also have "\<dots> = addBusinessDays (subtractBusinessDays d n) n"
    by (simp add: next_prev [OF b] addBusinessDays_funpow)
  finally show ?case using Suc by simp
qed

text \<open>
  The number of business days strictly after \<open>d\<close> and up to and including \<open>r\<close>, the
  quantity the specification of \<open>addBusinessDays\<close> speaks of: the calendar days
  \<open>d + 1, ..., d + (r - d) div msPerDay\<close> that pass the weekend test of the loops.
\<close>

definition countBusinessDaysBetween :: "date \<Rightarrow> date \<Rightarrow> nat" where
  "countBusinessDaysBetween d r =
     length (filter (\<lambda>k. isBusinessDay (setDatePlus d k)) [1..(r - d) div msPerDay])"

lemma upto_snoc: "i \<le> k + 1 \<Longrightarrow> [i..k + 1] = [i..k] @ [k + 1]"
  using upto_rec2 [of i "k + 1"] by simp

lemma count_next:
  assumes "0 \<le> j"
  shows "countBusinessDaysBetween d (nextBusinessDay (setDatePlus d j))
       = Suc (countBusinessDaysBetween d (setDatePlus d j))"
proof -
  have dv: "\<And>k. (setDatePlus d k - d) div msPerDay = k"
    using msPerDay_pos by (simp add: setDatePlus_def)
  have u1: "[1..j + 1] = [1..j] @ [j + 1]"
    using assms by (simp add: upto_rec2)
  have "[1..j + 1 + 1] = [1..j + 1] @ [j + 1 + 1]"
    using assms by (intro upto_snoc) simp
  then have u2: "[1..j + 2] = [1..j] @ [j + 1, j + 2]"
    using u1 by (simp add: add.commute)
  have "[1..j + 2 + 1] = [1..j + 2] @ [j + 2 + 1]"
    using assms by (intro upto_snoc) simp
  then have u3: "[1..j + 3] = [1..j] @ [j + 1, j + 2, j + 3]"
    using u2 by (simp add: add.commute)
  have g: "\<And>k. getDay (setDatePlus d (j + k)) = (getDay (setDatePlus d j) + k) mod 7"
    by (simp only: setDatePlus_add [symmetric] getDay_plus)
  show ?thesis
    using getDay_cases [of "setDatePlus d j"]
    by (elim disjE)
      (simp_all add: countBusinessDaysBetween_def nextBusinessDay_def setDatePlus_add dv
        u1 u2 u3 isBusinessDay_def g)
qed

lemma addBusinessDays_offset: "\<exists>j\<ge>0. addBusinessDays d n = setDatePlus d j"
proof (induction n)
  case 0
  show ?case by (intro exI [of _ 0]) (simp add: addBusinessDays_0 setDatePlus_0)
next
  case (Suc n)
  then obtain j where j: "0 \<le> j" "addBusinessDays d n = setDatePlus d j" by blast
  define s :: int where
    "s = (if getDay (setDatePlus d j) = 5 then 3 else if getDay (setDatePlus d j) = 6 then 2 else 1)"
  have "nextBusinessDay (setDatePlus d j) = setDatePlus d (j + s)"
    by (simp add: nextBusinessDay_def setDatePlus_add s_def)
  moreover have "0 \<le> j + s"
    using j(1) by (simp add: s_def)
  ultimately show ?case
    using j(2) by (intro exI [of _ "j + s"]) (simp add: addBusinessDays_Suc)
qed

lemma addBusinessDays_count: "countBusinessDaysBetween d (addBusinessDays d n) = n"
proof (induction n)
  case 0
  show ?case by (simp add: addBusinessDays_0 countBusinessDaysBetween_def)
next
  case (Suc n)
  obtain j where j: "0 \<le> j" "addBusinessDays d n = setDatePlus d j"
    using addBusinessDays_offset by blast
  show ?case
    using Suc count_next [OF j(1), of d] by (simp add: addBusinessDays_Suc j(2))
qed

section \<open>Carrier classifier\<close>

text \<open>
  \<open>detectCarrierAndGenerateUrl\<close> tests the tracking number against five regular
  expression literals. They are modelled as values of a small regular expression type
  with a backtracking matcher: \<open>matchPrefix r s\<close> lists the rests of \<open>s\<close> after every
  match of \<open>r\<close> at the start of \<open>s\<close>. All five literals are anchored (\<open>^...$\<close>, no
  flags), so \<open>pattern.test(s)\<close> holds when some match leaves the empty rest.
  \<open>Cls\<close> is a character class given by ranges (\<open>\d\<close> is \<open>[0-9]\<close>), \<open>Rep n m r\<close> is
  \<open>r{n,m}\<close>, and \<open>oneOf\<close> is an alternation \<open>(a|b|...)\<close>.
\<close>

datatype regex =
    Lit string
  | Cls "(char \<times> char) list"
  | Seq regex regex
  | Alt regex regex
  | Rep nat nat regex

definition inClass :: "(char \<times> char) list \<Rightarrow> char \<Rightarrow> bool" where
  "inClass rs c =
     list_ex (\<lambda>(lo, hi). (of_char lo :: nat) \<le> of_char c \<and> (of_char c :: nat) \<le> of_char hi) rs"

primrec iter :: "nat \<Rightarrow> (string \<Rightarrow> string list) \<Rightarrow> string \<Rightarrow> string list" where
  "iter 0 f s = [s]"
| "iter (Suc k) f s = concat (map (iter k f) (f s))"

definition matchLit :: "string \<Rightarrow> string \<Rightarrow> string list" where
  "matchLit l s = (if take (length l) s = l then [drop (length l) s] else [])"

definition matchCls :: "(char \<times> char) list \<Rightarrow> string \<Rightarrow> string list" where
  "matchCls rs s = (case s of [] \<Rightarrow> [] | c # t \<Rightarrow> if inClass rs c then [t] else [])"

primrec matchPrefix :: "regex \<Rightarrow> string \<Rightarrow> string list" where
  "matchPrefix (Lit l) = matchLit l"
| "matchPrefix (Cls rs) = matchCls rs"
| "matchPrefix (Seq a b) = (\<lambda>s. concat (map (matchPrefix b) (matchPrefix a s)))"
| "matchPrefix (Alt a b) = (\<lambda>s. matchPrefix a s @ matchPrefix b s)"
| "matchPrefix (Rep n m r) = (\<lambda>s. concat (map (\<lambda>k. iter k (matchPrefix r) s) [n..<Suc m]))"

definition test :: "regex \<Rightarrow> string \<Rightarrow> bool" where
  "test r s = ([] \<in> set (matchPrefix r s))"

fun oneOf :: "regex list \<Rightarrow> regex" where
  "oneOf [] = Cls []"
| "oneOf [r] = r"
| "oneOf (r # rs) = Alt r (oneOf rs)"

definition digit :: regex where
  "digit = Cls [(CHR ''0'', CHR ''9'')]"

text \<open>
  The five patterns of the \<open>carriers\<close> object, in the order of the source:
  \<^verbatim>\<open>/^1Z[0-9A-Z]{16}$/\<close>,
  \<^verbatim>\<open>/^(94|93|92|91|90|82|81|80|70|23|13|03|04)\d{18,20}$/\<close>,
  \<^verbatim>\<open>/^(\d{12}|\d{14}|\d{15}|\d{20}|\d{22})$/\<close>,
  \<^verbatim>\<open>/^(\d{10}|\d{11})$/\<close> and
  \<^verbatim>\<open>/^TBA\d{12}$/\<close>.
\<close>

definition upsPattern :: regex where
  "upsPattern = Seq (Lit ''1Z'') (Rep 16 16 (Cls [(CHR ''0'', CHR ''9''), (CHR ''A'', CHR ''Z'')]))"

definition uspsPattern :: regex where
  "uspsPattern =
     Seq (oneOf (map Lit [''94'', ''93'', ''92'', ''91'', ''90'', ''82'', ''81'', ''80'', ''70'',
                          ''23'', ''13'', ''03'', ''04'']))
         (Rep 18 20 digit)"

definition fedexPattern :: regex where
  "fedexPattern =
     oneOf [Rep 12 12 digit, Rep 14 14 digit, Rep 15 15 digit, Rep 20 20 digit, Rep 22 22 digit]"

definition dhlPattern :: regex where
  "dhlPattern = oneOf [Rep 10 10 digit, Rep 11 11 digit]"

definition amazonPattern :: regex where
  "amazonPattern = Seq (Lit ''TBA'') (Rep 12 12 digit)"

record carrier =
  pattern :: regex
  url :: string
  name :: string

record carrier_info =
  carrier :: string
  trackingUrl :: string
  carrierCode :: string

text \<open>
  \<open>Object.entries(carriers)\<close> lists the keys in insertion order (none of them is an
  integer index), so the object is an association list. The \<open>url\<close> template literals
  interpolate the tracking number at their end.
\<close>

definition carriers :: "string \<Rightarrow> (string \<times> carrier) list" where
  "carriers trackingNumber =
    [(''UPS'',
      \<lparr>pattern = upsPattern,
       url = ''https://www.ups.com/track?track=yes&trackNums='' @ trackingNumber,
       name = ''UPS''\<rparr>),
     (''USPS'',
      \<lparr>pattern = uspsPattern,
       url = ''https://tools.usps.com/go/TrackConfirmAction?tLabels='' @ trackingNumber,
       name = ''USPS''\<rparr>),
     (''FedEx'',
      \<lparr>pattern = fedexPattern,
       url = ''https://www.fedex.com/fedextrack/?tracknumber='' @ trackingNumber,
       name = ''FedEx''\<rparr>),
     (''DHL'',
      \<lparr>pattern = dhlPattern,
       url = ''https://www.dhl.com/us-en/home/tracking.html?tracking-id='' @ trackingNumber,
       name = ''DHL''\<rparr>),
     (''Amazon'',
      \<lparr>pattern = amazonPattern,
       url = ''https://track.amazon.com/tracking/'' @ trackingNumber,
       name = ''Amazon Logistics''\<rparr>)]"

text \<open>The \<open>for ... of\<close> loop with its \<open>return\<close> at the first pattern that matches.\<close>

fun firstMatch :: "string \<Rightarrow> (string \<times> carrier) list \<Rightarrow> carrier_info option" where
  "firstMatch trackingNumber [] = None"
| "firstMatch trackingNumber ((code, c) # rest) =
     (if test (pattern c) trackingNumber
      then Some \<lparr>carrier = name c, trackingUrl = url c, carrierCode = code\<rparr>
      else firstMatch trackingNumber rest)"

definition detectCarrierAndGenerateUrl :: "string \<Rightarrow> carrier_info" where
  "detectCarrierAndGenerateUrl trackingNumber =
     (case firstMatch trackingNumber (carriers trackingNumber) of
        Some info \<Rightarrow> info
      | None \<Rightarrow>
          \<lparr>carrier = ''Carrier'',
           trackingUrl = ''https://www.google.com/search?q=track+package+'' @ trackingNumber,
           carrierCode = ''UNKNOWN''\<rparr>)"


lemma in_iter_Cls:
  "t \<in> set (iter k (matchCls rs) s)
    \<longleftrightarrow> k \<le> length s \<and> list_all (inClass rs) (take k s) \<and> t = drop k s"
proof (induction k arbitrary: s)
  case 0
  show ?case by auto
next
  case (Suc k)
  show ?case
  proof (cases s)
    case Nil
    then show ?thesis by (simp add: matchCls_def)
  next
    case (Cons c u)
    then show ?thesis using Suc [of u] by (auto simp: matchCls_def)
  qed
qed

lemma in_matchPrefix_Rep:
  "t \<in> set (matchPrefix (Rep n m r) s)
    \<longleftrightarrow> (\<exists>k. n \<le> k \<and> k \<le> m \<and> t \<in> set (iter k (matchPrefix r) s))"
  by (auto simp: less_Suc_eq_le)

lemma in_Rep_Cls:
  "t \<in> set (matchPrefix (Rep n m (Cls rs)) s)
    \<longleftrightarrow> (\<exists>k. n \<le> k \<and> k \<le> m \<and> k \<le> length s \<and> list_all (inClass rs) (take k s) \<and> t = drop k s)"
  unfolding in_matchPrefix_Rep by (simp add: in_iter_Cls)

lemma test_Rep_Cls:
  "[] \<in> set (matchPrefix (Rep n m (Cls rs)) s)
    \<longleftrightarrow> n \<le> length s \<and> length s \<le> m \<and> list_all (inClass rs) s"
proof -
  have "[] \<in> set (matchPrefix (Rep n m (Cls rs)) s)
    \<longleftrightarrow> (\<exists>k. n \<le> k \<and> k \<le> m \<and> k = length s \<and> list_all (inClass rs) s)"
    unfolding in_Rep_Cls by (intro ex_cong1) auto
  then show ?thesis by blast
qed

text \<open>
  The shapes of tracking numbers as the specification words them: explicit alphabets,
  prefixes and lengths. The patterns of the source are compared with them.
\<close>

definition isDigit :: "char \<Rightarrow> bool" where
  "isDigit c = (c \<in> set ''0123456789'')"

definition isUpperAlnum :: "char \<Rightarrow> bool" where
  "isUpperAlnum c = (c \<in> set ''0123456789ABCDEFGHIJKLMNOPQRSTUVWXYZ'')"

definition uspsPrefixes :: "string list" where
  "uspsPrefixes = [''94'', ''93'', ''92'', ''91'', ''90'', ''82'', ''81'', ''80'', ''70'', ''23'',
                   ''13'', ''03'', ''04'']"

definition spec_ups :: "string \<Rightarrow> bool" where
  "spec_ups s = (take 2 s = ''1Z'' \<and> length (drop 2 s) = 16 \<and> list_all isUpperAlnum (drop 2 s))"

definition spec_usps :: "string \<Rightarrow> bool" where
  "spec_usps s =
     (take 2 s \<in> set uspsPrefixes \<and> 18 \<le> length (drop 2 s) \<and> length (drop 2 s) \<le> 20
      \<and> list_all isDigit (drop 2 s))"

definition spec_fedex :: "string \<Rightarrow> bool" where
  "spec_fedex s = (list_all isDigit s \<and> length s \<in> set [12, 14, 15, 20, 22])"

definition spec_dhl :: "string \<Rightarrow> bool" where
  "spec_dhl s = (list_all isDigit s \<and> length s \<in> set [10, 11])"

definition spec_amazon :: "string \<Rightarrow> bool" where
  "spec_amazon s = (take 3 s = ''TBA'' \<and> length (drop 3 s) = 12 \<and> list_all isDigit (drop 3 s))"

lemma mem_by_code: "(c \<in> set cs) = ((of_char c :: nat) \<in> set (map of_char cs))"
  by (auto simp: image_iff)

lemma digit_codes: "map of_char ''0123456789'' = [48..<(58::nat)]"
  by code_simp

lemma upper_codes: "map of_char ''ABCDEFGHIJKLMNOPQRSTUVWXYZ'' = [65..<(91::nat)]"
  by code_simp

lemma isDigit_code: "isDigit c = (48 \<le> (of_char c :: nat) \<and> (of_char c :: nat) \<le> 57)"
proof -
  have "isDigit c = ((of_char c :: nat) \<in> set [48..<58])"
    unfolding isDigit_def mem_by_code [of c "''0123456789''"] digit_codes ..
  also have "\<dots> = (48 \<le> (of_char c :: nat) \<and> (of_char c :: nat) < 58)"
    by (simp only: set_upt atLeastLessThan_iff)
  also have "\<dots> = (48 \<le> (of_char c :: nat) \<and> (of_char c :: nat) \<le> 57)"
    by arith
  finally show ?thesis .
qed

lemma isUpper_code:
  "(c \<in> set ''ABCDEFGHIJKLMNOPQRSTUVWXYZ'') = (65 \<le> (of_char c :: nat) \<and> (of_char c :: nat) \<le> 90)"
proof -
  have "(c \<in> set ''ABCDEFGHIJKLMNOPQRSTUVWXYZ'') = ((of_char c :: nat) \<in> set [65..<91])"
    unfolding mem_by_code [of c "''ABCDEFGHIJKLMNOPQRSTUVWXYZ''"] upper_codes ..
  also have "\<dots> = (65 \<le> (of_char c :: nat) \<and> (of_char c :: nat) < 91)"
    by (simp only: set_upt atLeastLessThan_iff)
  also have "\<dots> = (65 \<le> (of_char c :: nat) \<and> (of_char c :: nat) \<le> 90)"
    by arith
  finally show ?thesis .
qed

lemma isUpperAlnum_code:
  "isUpperAlnum c = (48 \<le> (of_char c :: nat) \<and> (of_char c :: nat) \<le> 57
      \<or> 65 \<le> (of_char c :: nat) \<and> (of_char c :: nat) \<le> 90)"
proof -
  have "''0123456789ABCDEFGHIJKLMNOPQRSTUVWXYZ'' = ''0123456789'' @ ''ABCDEFGHIJKLMNOPQRSTUVWXYZ''"
    by simp
  then have "isUpperAlnum c = (isDigit c \<or> c \<in> set ''ABCDEFGHIJKLMNOPQRSTUVWXYZ'')"
    unfolding isUpperAlnum_def isDigit_def by (simp only: set_append Un_iff)
  then show ?thesis
    by (simp only: isDigit_code isUpper_code)
qed

lemma inClass_digit: "inClass [(CHR ''0'', CHR ''9'')] = isDigit"
  by (rule ext) (simp add: inClass_def isDigit_code)

lemma inClass_upperAlnum: "inClass [(CHR ''0'', CHR ''9''), (CHR ''A'', CHR ''Z'')] = isUpperAlnum"
  by (rule ext) (simp add: inClass_def isUpperAlnum_code)

lemma test_Rep_digit:
  "test (Rep n m digit) s \<longleftrightarrow> n \<le> length s \<and> length s \<le> m \<and> list_all isDigit s"
  unfolding test_def digit_def test_Rep_Cls inClass_digit ..

lemma test_Seq_Lit:
  "test (Seq (Lit l) r) s \<longleftrightarrow> take (length l) s = l \<and> test r (drop (length l) s)"
  by (simp add: test_def matchLit_def)

lemma in_oneOf:
  "t \<in> set (matchPrefix (oneOf rs) s) \<longleftrightarrow> (\<exists>r\<in>set rs. t \<in> set (matchPrefix r s))"
  by (induction rs rule: oneOf.induct) (auto simp: matchCls_def inClass_def split: list.splits)

lemma test_oneOf: "test (oneOf rs) s \<longleftrightarrow> (\<exists>r\<in>set rs. test r s)"
  by (simp add: test_def in_oneOf)

lemma test_Seq_prefixes:
  assumes "\<forall>p\<in>set ps. length p = k"
  shows "test (Seq (oneOf (map Lit ps)) r) s \<longleftrightarrow> take k s \<in> set ps \<and> test r (drop k s)"
proof -
  have "test (Seq (oneOf (map Lit ps)) r) s
      \<longleftrightarrow> (\<exists>t. t \<in> set (matchPrefix (oneOf (map Lit ps)) s) \<and> test r t)"
    by (auto simp: test_def)
  also have "\<dots> \<longleftrightarrow> (\<exists>t. (\<exists>p\<in>set ps. take (length p) s = p \<and> t = drop (length p) s) \<and> test r t)"
    by (auto simp: in_oneOf matchLit_def)
  also have "\<dots> \<longleftrightarrow> take k s \<in> set ps \<and> test r (drop k s)"
    using assms by auto
  finally show ?thesis .
qed

lemma test_Seq_Lit2:
  "length l = k \<Longrightarrow> test (Seq (Lit l) r) s \<longleftrightarrow> take k s = l \<and> test r (drop k s)"
  using test_Seq_Lit [of l r s] by simp

lemma test_upsPattern: "test upsPattern s = spec_ups s"
proof -
  have "length ''1Z'' = 2"
    by simp
  from test_Seq_Lit2 [OF this] show ?thesis
    unfolding upsPattern_def spec_ups_def
    by (simp only: test_def test_Rep_Cls inClass_upperAlnum) auto
qed

lemma test_uspsPattern: "test uspsPattern s = spec_usps s"
proof -
  have "\<forall>p\<in>set uspsPrefixes. length p = 2"
    by (simp add: uspsPrefixes_def)
  from test_Seq_prefixes [OF this] show ?thesis
    unfolding uspsPattern_def spec_usps_def uspsPrefixes_def [symmetric]
    by (simp add: test_Rep_digit)
qed

lemma test_fedexPattern: "test fedexPattern s = spec_fedex s"
  unfolding fedexPattern_def spec_fedex_def test_oneOf
  by (auto simp: test_Rep_digit)

lemma test_dhlPattern: "test dhlPattern s = spec_dhl s"
  unfolding dhlPattern_def spec_dhl_def test_oneOf
  by (auto simp: test_Rep_digit)

lemma test_amazonPattern: "test amazonPattern s = spec_amazon s"
proof -
  have "length ''TBA'' = 3"
    by simp
  from test_Seq_Lit2 [OF this] show ?thesis
    unfolding amazonPattern_def spec_amazon_def
    by (simp only: test_Rep_digit) auto
qed

section \<open>Timeline synthesizer\<close>

text \<open>
  \<open>generateRealisticTrackingEventsWithFulfillment\<close> reads the clock once
  (\<open>const today = new Date()\<close>) and calls \<open>Math.random()\<close>. Both are inputs of the
  model: \<open>today\<close> is a parameter, and every call site of \<open>Math.random()\<close> whose value
  enters a date has a field of \<open>randomness\<close>, named by its line in \<open>server.js\<close>.
  The fields of an event that no claim reads (\<open>location\<close>, the display strings \<open>date\<close>
  and \<open>time\<close>, \<open>isCustomPickup\<close>) are left out, with the draws and the parameters
  \<open>destinationCity\<close> and \<open>provinceCode\<close> that only they use. The field \<open>date\<close> of the
  model is the underlying \<open>currentEventDate\<close> that the source formats into its display
  strings. Date strings are taken as parsed.
\<close>

text \<open>
  A fulfillment record, as far as the synthesizer reads it. \<open>tracking_number\<close> is absent
  (\<open>None\<close>) or a string, which is falsy when empty.
\<close>

record fulfillment =
  tracking_number :: "string option"
  tracking_numbers :: "string list option"
  created_at :: date

text \<open>
  The draws: line 359 (pickup offset after a custom label date), 370 and 373 (label and
  pickup offsets of the automatic dates), 387 (label offset before a fulfillment), 409
  (Order Processed), and 429 to 449 (the five calls of \<open>getRandomBusinessDaysInterval\<close>).
\<close>

record randomness =
  draw359 :: nat
  draw370 :: nat
  draw373 :: nat
  draw387 :: nat
  draw409 :: nat
  draw429 :: nat
  draw434 :: nat
  draw439 :: nat
  draw444 :: nat
  draw449 :: nat

text \<open>
  \<open>Math.floor(Math.random() * k)\<close> is an integer of \<open>{0, ..., k - 1}\<close>; the model takes
  it from the raw draw \<open>u\<close>, so that every draw is admissible and every outcome occurs.
\<close>

definition randomBelow :: "nat \<Rightarrow> nat \<Rightarrow> nat" where
  "randomBelow k u = u mod k"

definition getRandomBusinessDaysInterval :: "nat \<Rightarrow> nat" where
  "getRandomBusinessDaysInterval u = randomBelow 3 u + 3"

text \<open>The predicate of \<open>fulfillments.find\<close>: \<open>f.tracking_number || f.tracking_numbers?.length > 0\<close>.\<close>

definition hasTracking :: "fulfillment \<Rightarrow> bool" where
  "hasTracking f =
     ((case tracking_number f of Some s \<Rightarrow> s \<noteq> [] | None \<Rightarrow> False)
      \<or> (case tracking_numbers f of Some ns \<Rightarrow> 0 < length ns | None \<Rightarrow> False))"

text \<open>
  Lines 354 to 397: the dates \<open>(labelCreatedDate, packagePickupDate)\<close>, from the custom
  pickup date when there is one, and otherwise from the order date, re-anchored on the
  first fulfillment that carries a tracking number when it was created from 1 to 29 whole
  days after the order.
\<close>

definition labelAndPickupDates ::
  "randomness \<Rightarrow> date \<Rightarrow> fulfillment list \<Rightarrow> date option \<Rightarrow> date \<times> date" where
  "labelAndPickupDates rnd orderDateObj fulfillments customPickupDate =
     (case customPickupDate of
        Some custom \<Rightarrow>
          (let labelCreatedDate = custom;
               packagePickupDate = addBusinessDays labelCreatedDate (randomBelow 2 (draw359 rnd) + 1)
           in if labelCreatedDate \<le> orderDateObj
              then (let labelCreatedDate = addBusinessDays orderDateObj 1
                    in (labelCreatedDate, addBusinessDays labelCreatedDate 1))
              else (labelCreatedDate, packagePickupDate))
      | None \<Rightarrow>
          (let labelCreatedDate = addBusinessDays orderDateObj (randomBelow 3 (draw370 rnd) + 1);
               packagePickupDate = addBusinessDays labelCreatedDate (randomBelow 2 (draw373 rnd) + 1)
           in case find hasTracking fulfillments of
                None \<Rightarrow> (labelCreatedDate, packagePickupDate)
              | Some shipmentFulfillment \<Rightarrow>
                  (let fulfillmentDate = created_at shipmentFulfillment;
                       daysBetweenOrderAndFulfillment = (fulfillmentDate - orderDateObj) div msPerDay
                   in if 0 < daysBetweenOrderAndFulfillment \<and> daysBetweenOrderAndFulfillment < 30
                      then (let packagePickupDate = subtractBusinessDays fulfillmentDate 1;
                                labelCreatedDate =
                                  subtractBusinessDays packagePickupDate (randomBelow 2 (draw387 rnd) + 1)
                            in if labelCreatedDate \<le> orderDateObj
                               then (let labelCreatedDate = addBusinessDays orderDateObj 1
                                     in (labelCreatedDate, addBusinessDays labelCreatedDate 1))
                               else (labelCreatedDate, packagePickupDate))
                      else (labelCreatedDate, packagePickupDate))))"

text \<open>
  The event templates. A template has a \<open>fixedDate\<close> or a \<open>businessDaysFromPrevious\<close>;
  the absent number is 0 in the model, where the source holds \<open>undefined\<close> and never
  reads it.
\<close>

record template =
  status :: string
  fixedDate :: "date option"
  businessDaysFromPrevious :: nat

definition eventTemplates :: "randomness \<Rightarrow> date \<Rightarrow> date \<Rightarrow> date \<Rightarrow> template list" where
  "eventTemplates rnd orderConfirmedDate labelCreatedDate packagePickupDate =
    [\<lparr>status = ''Order Confirmed'', fixedDate = Some orderConfirmedDate, businessDaysFromPrevious = 0\<rparr>,
     \<lparr>status = ''Order Processed'',
      fixedDate = Some (addBusinessDays orderConfirmedDate (randomBelow 2 (draw409 rnd) + 1)),
      businessDaysFromPrevious = 0\<rparr>,
     \<lparr>status = ''Label Created'', fixedDate = Some labelCreatedDate, businessDaysFromPrevious = 0\<rparr>,
     \<lparr>status = ''Package Picked Up'', fixedDate = Some packagePickupDate, businessDaysFromPrevious = 0\<rparr>,
     \<lparr>status = ''Departed Origin Facility'', fixedDate = None, businessDaysFromPrevious = 1\<rparr>,
     \<lparr>status = ''In Transit'', fixedDate = None,
      businessDaysFromPrevious = getRandomBusinessDaysInterval (draw429 rnd)\<rparr>,
     \<lparr>status = ''Arrived at Sorting Facility'', fixedDate = None,
      businessDaysFromPrevious = getRandomBusinessDaysInterval (draw434 rnd)\<rparr>,
     \<lparr>status = ''Departed Sorting Facility'', fixedDate = None,
      businessDaysFromPrevious = getRandomBusinessDaysInterval (draw439 rnd)\<rparr>,
     \<lparr>status = ''Arrived at Destination Facility'', fixedDate = None,
      businessDaysFromPrevious = getRandomBusinessDaysInterval (draw444 rnd)\<rparr>,
     \<lparr>status = ''Out for Delivery'', fixedDate = None,
      businessDaysFromPrevious = getRandomBusinessDaysInterval (draw449 rnd)\<rparr>]"

record tracking_event =
  status :: string
  date :: date
  completed :: bool
  current :: bool
  isDelivered :: bool

text \<open>
  The \<open>for\<close> loop over the templates: \<open>nextEventDate\<close> is the update of
  \<open>currentEventDate\<close>, and \<open>emitEvents\<close> leaves the loop (\<open>break\<close>) at the first date after
  \<open>today\<close>.
\<close>

definition nextEventDate :: "date \<Rightarrow> nat \<Rightarrow> template \<Rightarrow> date" where
  "nextEventDate currentEventDate i t =
     (case fixedDate t of
        Some d \<Rightarrow> d
      | None \<Rightarrow> if 0 < i then addBusinessDays currentEventDate (businessDaysFromPrevious t)
                else currentEventDate)"

fun emitEvents :: "date \<Rightarrow> date \<Rightarrow> nat \<Rightarrow> template list \<Rightarrow> tracking_event list" where
  "emitEvents today currentEventDate i [] = []"
| "emitEvents today currentEventDate i (t # ts) =
     (let currentEventDate' = nextEventDate currentEventDate i t
      in if currentEventDate' > today then []
         else \<lparr>status = template.status t, date = currentEventDate', completed = True,
               current = False, isDelivered = False\<rparr>
              # emitEvents today currentEventDate' (i + 1) ts)"

text \<open>Lines 500 to 504: the last event becomes the current one unless the order is delivered.\<close>

definition markCurrent :: "bool \<Rightarrow> tracking_event list \<Rightarrow> tracking_event list" where
  "markCurrent delivered events =
     (if 0 < length events \<and> \<not> delivered
      then events[length events - 1 := (events ! (length events - 1))\<lparr>current := True, completed := False\<rparr>]
      else events)"

text \<open>The list \<open>events\<close> before the Delivered event is added.\<close>

definition truncatedEvents ::
  "date \<Rightarrow> randomness \<Rightarrow> date \<Rightarrow> bool \<Rightarrow> fulfillment list \<Rightarrow> date option \<Rightarrow> tracking_event list" where
  "truncatedEvents today rnd orderDate delivered fulfillments customPickupDate =
     (let orderDateObj = orderDate;
          orderConfirmedDate = orderDateObj;
          dates = labelAndPickupDates rnd orderDateObj fulfillments customPickupDate
      in markCurrent delivered
           (emitEvents today orderDateObj 0
              (eventTemplates rnd orderConfirmedDate (fst dates) (snd dates))))"

text \<open>Lines 506 to 523: the Delivered event, added when \<open>isDelivered && deliveryDate\<close>.\<close>

definition deliveredEvent :: "date \<Rightarrow> tracking_event" where
  "deliveredEvent actualDeliveryDate =
     \<lparr>status = ''Delivered'', date = actualDeliveryDate, completed = True, current = False,
      isDelivered = True\<rparr>"

definition generateRealisticTrackingEventsWithFulfillment ::
  "date \<Rightarrow> randomness \<Rightarrow> date \<Rightarrow> bool \<Rightarrow> date option \<Rightarrow> fulfillment list \<Rightarrow> date option
    \<Rightarrow> tracking_event list" where
  "generateRealisticTrackingEventsWithFulfillment today rnd orderDate delivered deliveryDate
      fulfillments customPickupDate =
     (let events = truncatedEvents today rnd orderDate delivered fulfillments customPickupDate
      in case deliveryDate of
           Some d \<Rightarrow> if delivered then events @ [deliveredEvent d] else events
         | None \<Rightarrow> events)"


text \<open>The dates the loop computes for the templates when nothing is cut off.\<close>

fun computedDates :: "date \<Rightarrow> nat \<Rightarrow> template list \<Rightarrow> date list" where
  "computedDates currentEventDate i [] = []"
| "computedDates currentEventDate i (t # ts) =
     (let currentEventDate' = nextEventDate currentEventDate i t
      in currentEventDate' # computedDates currentEventDate' (i + 1) ts)"

lemma emitEvents_flags:
  "e \<in> set (emitEvents today cur i ts) \<Longrightarrow>
     date e \<le> today \<and> completed e \<and> \<not> current e \<and> \<not> isDelivered e"
  by (induction ts arbitrary: cur i) (auto simp: Let_def split: if_splits)

lemma emitEvents_dates:
  "map date (emitEvents today cur i ts) = takeWhile (\<lambda>d. d \<le> today) (computedDates cur i ts)"
  by (induction ts arbitrary: cur i) (auto simp: Let_def)

lemma emitEvents_pairs:
  "map (\<lambda>e. (tracking_event.status e, date e)) (emitEvents today cur i ts)
    = take (length (emitEvents today cur i ts))
        (zip (map template.status ts) (computedDates cur i ts))"
  by (induction ts arbitrary: cur i) (auto simp: Let_def)

lemma emitEvents_length: "length (emitEvents today cur i ts) \<le> length ts"
  by (induction ts arbitrary: cur i) (auto simp: Let_def)

lemma markCurrent_length: "length (markCurrent d evs) = length evs"
  by (simp add: markCurrent_def)

lemma map_update_same:
  "k < length xs \<Longrightarrow> f y = f (xs ! k) \<Longrightarrow> map f (xs[k := y]) = map f xs"
  by (rule nth_equalityI) (auto simp: nth_list_update)

lemma markCurrent_status: "map tracking_event.status (markCurrent d evs) = map tracking_event.status evs"
  by (simp add: markCurrent_def map_update_same)

lemma markCurrent_date: "map date (markCurrent d evs) = map date evs"
  by (simp add: markCurrent_def map_update_same)

lemma markCurrent_isDelivered: "map isDelivered (markCurrent d evs) = map isDelivered evs"
  by (simp add: markCurrent_def map_update_same)

lemma markCurrent_pairs:
  "map (\<lambda>e. (tracking_event.status e, date e)) (markCurrent d evs)
    = map (\<lambda>e. (tracking_event.status e, date e)) evs"
  by (simp add: markCurrent_def map_update_same)

lemma markCurrent_nth:
  assumes "\<forall>e\<in>set evs. completed e \<and> \<not> current e" "i < length evs"
  shows "completed (markCurrent d evs ! i) = (\<not> (i = length evs - 1 \<and> \<not> d))"
    and "current (markCurrent d evs ! i) = (i = length evs - 1 \<and> \<not> d)"
  using assms by (auto simp: markCurrent_def nth_list_update)

lemma markCurrent_delivered: "markCurrent True evs = evs"
  by (simp add: markCurrent_def)

lemma markCurrent_snoc:
  "evs \<noteq> [] \<Longrightarrow> \<not> d \<Longrightarrow>
    markCurrent d evs = butlast evs @ [(last evs)\<lparr>current := True, completed := False\<rparr>]"
  by (cases evs rule: rev_cases) (auto simp: markCurrent_def)

lemma markCurrent_filter_current:
  assumes "\<forall>e\<in>set evs. \<not> current e"
  shows "length (filter current (markCurrent d evs)) \<le> 1"
proof (cases "evs \<noteq> [] \<and> \<not> d")
  case True
  have "filter current (butlast evs) = []"
    using assms by (auto simp: filter_empty_conv dest: in_set_butlastD)
  then show ?thesis
    using True by (simp add: markCurrent_snoc)
next
  case False
  then have "markCurrent d evs = evs"
    by (auto simp: markCurrent_def)
  moreover have "filter current evs = []"
    using assms by (auto simp: filter_empty_conv)
  ultimately show ?thesis by simp
qed

lemma markCurrent_current_only_undelivered:
  assumes "\<forall>e\<in>set evs. \<not> current e" "e \<in> set (markCurrent d evs)" "current e"
  shows "\<not> d"
  using assms by (auto simp: markCurrent_def)

lemma emitEvents_status:
  "e \<in> set (emitEvents today cur i ts) \<Longrightarrow> tracking_event.status e \<in> set (map template.status ts)"
  by (induction ts arbitrary: cur i) (auto simp: Let_def split: if_splits)

lemma eventTemplates_status:
  "map template.status (eventTemplates rnd oc l p) =
    [''Order Confirmed'', ''Order Processed'', ''Label Created'', ''Package Picked Up'',
     ''Departed Origin Facility'', ''In Transit'', ''Arrived at Sorting Facility'',
     ''Departed Sorting Facility'', ''Arrived at Destination Facility'', ''Out for Delivery'']"
  by (simp add: eventTemplates_def)

lemma set_via_map: "e \<in> set xs \<Longrightarrow> f e \<in> set (map f xs)"
  by simp

lemma truncatedEvents_props:
  assumes "e \<in> set (truncatedEvents today rnd orderDate delivered fs cpd)"
  shows "date e \<le> today" and "\<not> isDelivered e" and "tracking_event.status e \<noteq> ''Delivered''"
proof -
  let ?E = "emitEvents today orderDate 0
      (eventTemplates rnd orderDate (fst (labelAndPickupDates rnd orderDate fs cpd))
         (snd (labelAndPickupDates rnd orderDate fs cpd)))"
  have T: "truncatedEvents today rnd orderDate delivered fs cpd = markCurrent delivered ?E"
    by (simp add: truncatedEvents_def Let_def)
  have "date e \<in> set (map date ?E)"
    using set_via_map [OF assms, of date] unfolding T markCurrent_date .
  then show "date e \<le> today"
    using emitEvents_flags by fastforce
  have "isDelivered e \<in> set (map isDelivered ?E)"
    using set_via_map [OF assms, of isDelivered] unfolding T markCurrent_isDelivered .
  then show "\<not> isDelivered e"
    using emitEvents_flags by fastforce
  have "tracking_event.status e \<in> set (map tracking_event.status ?E)"
    using set_via_map [OF assms, of tracking_event.status] unfolding T markCurrent_status .
  then obtain e' where "e' \<in> set ?E" "tracking_event.status e' = tracking_event.status e"
    by auto
  then have "tracking_event.status e \<in> set (map template.status
      (eventTemplates rnd orderDate (fst (labelAndPickupDates rnd orderDate fs cpd))
         (snd (labelAndPickupDates rnd orderDate fs cpd))))"
    using emitEvents_status by metis
  then show "tracking_event.status e \<noteq> ''Delivered''"
    unfolding eventTemplates_status by auto
qed

lemma truncatedEvents_dates:
  "map date (truncatedEvents today rnd orderDate delivered fs cpd) =
     takeWhile (\<lambda>d. d \<le> today)
       (computedDates orderDate 0
          (eventTemplates rnd orderDate (fst (labelAndPickupDates rnd orderDate fs cpd))
             (snd (labelAndPickupDates rnd orderDate fs cpd))))"
  by (simp add: truncatedEvents_def Let_def markCurrent_date emitEvents_dates)

lemma generate_append:
  "generateRealisticTrackingEventsWithFulfillment today rnd orderDate delivered deliveryDate fs cpd =
     truncatedEvents today rnd orderDate delivered fs cpd
     @ (if delivered
        then (case deliveryDate of
                Some d \<Rightarrow> [\<lparr>status = ''Delivered'', date = d, completed = True, current = False,
                            isDelivered = True\<rparr>]
              | None \<Rightarrow> [])
        else [])"
  by (simp add: generateRealisticTrackingEventsWithFulfillment_def deliveredEvent_def Let_def
      split: option.splits)

lemma truncatedEvents_flags:
  assumes "i < length (truncatedEvents today rnd orderDate delivered fs cpd)"
  shows "completed (truncatedEvents today rnd orderDate delivered fs cpd ! i)
      = (\<not> (i = length (truncatedEvents today rnd orderDate delivered fs cpd) - 1 \<and> \<not> delivered))"
    and "current (truncatedEvents today rnd orderDate delivered fs cpd ! i)
      = (i = length (truncatedEvents today rnd orderDate delivered fs cpd) - 1 \<and> \<not> delivered)"
proof -
  let ?E = "emitEvents today orderDate 0
      (eventTemplates rnd orderDate (fst (labelAndPickupDates rnd orderDate fs cpd))
         (snd (labelAndPickupDates rnd orderDate fs cpd)))"
  have T: "truncatedEvents today rnd orderDate delivered fs cpd = markCurrent delivered ?E"
    by (simp add: truncatedEvents_def Let_def)
  have E: "\<forall>e\<in>set ?E. completed e \<and> \<not> current e"
    using emitEvents_flags by blast
  have i: "i < length ?E"
    using assms by (simp add: T markCurrent_length)
  show "completed (truncatedEvents today rnd orderDate delivered fs cpd ! i)
      = (\<not> (i = length (truncatedEvents today rnd orderDate delivered fs cpd) - 1 \<and> \<not> delivered))"
    unfolding T markCurrent_length by (rule markCurrent_nth(1) [OF E i])
  show "current (truncatedEvents today rnd orderDate delivered fs cpd ! i)
      = (i = length (truncatedEvents today rnd orderDate delivered fs cpd) - 1 \<and> \<not> delivered)"
    unfolding T markCurrent_length by (rule markCurrent_nth(2) [OF E i])
qed

lemma truncatedEvents_current:
  "length (filter current (truncatedEvents today rnd orderDate delivered fs cpd)) \<le> 1"
proof -
  let ?E = "emitEvents today orderDate 0
      (eventTemplates rnd orderDate (fst (labelAndPickupDates rnd orderDate fs cpd))
         (snd (labelAndPickupDates rnd orderDate fs cpd)))"
  have T: "truncatedEvents today rnd orderDate delivered fs cpd = markCurrent delivered ?E"
    by (simp add: truncatedEvents_def Let_def)
  have E: "\<forall>e\<in>set ?E. \<not> current e"
    using emitEvents_flags by blast
  show ?thesis
    unfolding T by (rule markCurrent_filter_current [OF E])
qed

lemma truncatedEvents_current_undelivered:
  assumes "e \<in> set (truncatedEvents today rnd orderDate delivered fs cpd)" "current e"
  shows "\<not> delivered"
proof -
  let ?E = "emitEvents today orderDate 0
      (eventTemplates rnd orderDate (fst (labelAndPickupDates rnd orderDate fs cpd))
         (snd (labelAndPickupDates rnd orderDate fs cpd)))"
  have T: "truncatedEvents today rnd orderDate delivered fs cpd = markCurrent delivered ?E"
    by (simp add: truncatedEvents_def Let_def)
  have E: "\<forall>e\<in>set ?E. \<not> current e"
    using emitEvents_flags by blast
  show ?thesis
    using assms unfolding T by (rule markCurrent_current_only_undelivered [OF E])
qed

lemma generate_cases:
  "generateRealisticTrackingEventsWithFulfillment today rnd orderDate delivered deliveryDate fs cpd
      = truncatedEvents today rnd orderDate delivered fs cpd
   \<or> (\<exists>d. generateRealisticTrackingEventsWithFulfillment today rnd orderDate delivered deliveryDate fs cpd
      = truncatedEvents today rnd orderDate delivered fs cpd @ [deliveredEvent d])"
  by (cases deliveryDate) (auto simp: generateRealisticTrackingEventsWithFulfillment_def Let_def)

lemma deliveredEvent_flags:
  "tracking_event.status (deliveredEvent d) = ''Delivered''" "date (deliveredEvent d) = d"
  "completed (deliveredEvent d)" "\<not> current (deliveredEvent d)" "isDelivered (deliveredEvent d)"
  by (simp_all add: deliveredEvent_def)

lemma labelCreated_custom:
  "fst (labelAndPickupDates rnd orderDate fs (Some c))
     = (if c \<le> orderDate then addBusinessDays orderDate 1 else c)"
  by (simp add: labelAndPickupDates_def Let_def)

lemma labelCreated_event_date:
  assumes "e \<in> set (truncatedEvents today rnd orderDate delivered fs cpd)"
    and "tracking_event.status e = ''Label Created''"
  shows "date e = fst (labelAndPickupDates rnd orderDate fs cpd)"
proof -
  let ?ts = "eventTemplates rnd orderDate (fst (labelAndPickupDates rnd orderDate fs cpd))
         (snd (labelAndPickupDates rnd orderDate fs cpd))"
  let ?E = "emitEvents today orderDate 0 ?ts"
  let ?p = "\<lambda>e. (tracking_event.status e, date e)"
  have T: "truncatedEvents today rnd orderDate delivered fs cpd = markCurrent delivered ?E"
    by (simp add: truncatedEvents_def Let_def)
  have "?p e \<in> set (map ?p (markCurrent delivered ?E))"
    using assms(1) unfolding T by (rule set_via_map)
  then have "?p e \<in> set (take (length ?E) (zip (map template.status ?ts) (computedDates orderDate 0 ?ts)))"
    unfolding markCurrent_pairs emitEvents_pairs .
  then have "?p e \<in> set (zip (map template.status ?ts) (computedDates orderDate 0 ?ts))"
    by (rule in_set_takeD)
  then show ?thesis
    using assms(2) by (simp add: eventTemplates_def nextEventDate_def Let_def)
qed

text \<open>
  The order of the computed dates. Label Created is after the order date and not after
  Package Picked Up, and every later event is dated by adding business days to its
  predecessor. So the dates of the truncated list are non-decreasing once its second
  event, Order Processed, is set aside; the date of Order Processed is only known to be
  after the order date.
\<close>

lemma label_after_order:
  "orderDate < fst (labelAndPickupDates rnd orderDate fs cpd)"
  using addBusinessDays_gt [of _ orderDate]
  by (auto simp: labelAndPickupDates_def Let_def split: option.splits)

lemma label_le_pickup:
  "fst (labelAndPickupDates rnd orderDate fs cpd) \<le> snd (labelAndPickupDates rnd orderDate fs cpd)"
  using addBusinessDays_ge subtractBusinessDays_le
  by (auto simp: labelAndPickupDates_def Let_def split: option.splits)

lemma computedDates_relative_sorted:
  "\<forall>t\<in>set ts. fixedDate t = None \<Longrightarrow> sorted (cur # computedDates cur i ts)"
proof (induction ts arbitrary: cur i)
  case Nil
  show ?case by simp
next
  case (Cons t ts)
  have "cur \<le> nextEventDate cur i t"
    using Cons.prems addBusinessDays_ge by (simp add: nextEventDate_def)
  moreover have "sorted (nextEventDate cur i t # computedDates (nextEventDate cur i t) (i + 1) ts)"
    using Cons by simp
  ultimately show ?case
    by (fastforce simp: Let_def)
qed

lemma sorted_skip_second_take:
  "sorted (take 1 xs @ drop 2 xs) \<Longrightarrow> sorted (take 1 (take n xs) @ drop 2 (take n xs))"
proof (cases xs)
  case Nil
  then show ?thesis by simp
next
  case (Cons a ys)
  note xs = this
  assume s: "sorted (take 1 xs @ drop 2 xs)"
  show ?thesis
  proof (cases ys)
    case Nil
    then show ?thesis using xs by (cases n) simp_all
  next
    case (Cons b zs)
    show ?thesis
    proof (cases n)
      case 0
      then show ?thesis by simp
    next
      case (Suc m)
      show ?thesis
      proof (cases m)
        case 0
        then show ?thesis using xs Cons Suc by simp
      next
        case (Suc k)
        have "sorted (a # zs)"
          using s xs Cons by simp
        then have "sorted (take (Suc k) (a # zs))"
          by (rule sorted_wrt_take)
        then show ?thesis
          using xs Cons \<open>n = Suc m\<close> Suc by simp
      qed
    qed
  qed
qed

lemma computedDates_sorted_without_order_processed:
  "sorted (take 1 (computedDates orderDate 0 (eventTemplates rnd orderDate l p))
      @ drop 2 (computedDates orderDate 0 (eventTemplates rnd orderDate l p)))"
  if "orderDate \<le> l" "l \<le> p"
proof -
  let ?rest = "drop 4 (eventTemplates rnd orderDate l p)"
  have rest: "\<forall>t\<in>set ?rest. fixedDate t = None"
    by (simp add: eventTemplates_def)
  have cd: "computedDates orderDate 0 (eventTemplates rnd orderDate l p)
      = [orderDate, addBusinessDays orderDate (randomBelow 2 (draw409 rnd) + 1), l, p]
        @ computedDates p 4 ?rest"
    by (simp add: eventTemplates_def nextEventDate_def Let_def)
  have "sorted (p # computedDates p 4 ?rest)"
    using rest by (rule computedDates_relative_sorted)
  then have "sorted (orderDate # l # p # computedDates p 4 ?rest)"
    using that by auto
  then show ?thesis
    unfolding cd by simp
qed

lemma truncatedEvents_sorted_without_order_processed:
  "sorted (map date (take 1 (truncatedEvents today rnd orderDate delivered fs cpd)
      @ drop 2 (truncatedEvents today rnd orderDate delivered fs cpd)))"
proof -
  let ?cd = "computedDates orderDate 0
          (eventTemplates rnd orderDate (fst (labelAndPickupDates rnd orderDate fs cpd))
             (snd (labelAndPickupDates rnd orderDate fs cpd)))"
  let ?T = "truncatedEvents today rnd orderDate delivered fs cpd"
  have "sorted (take 1 ?cd @ drop 2 ?cd)"
    using label_after_order [of orderDate rnd fs cpd] label_le_pickup [of rnd orderDate fs cpd]
    by (intro computedDates_sorted_without_order_processed) simp_all
  then have "sorted (take 1 (take (length (takeWhile (\<lambda>d. d \<le> today) ?cd)) ?cd)
      @ drop 2 (take (length (takeWhile (\<lambda>d. d \<le> today) ?cd)) ?cd))"
    by (rule sorted_skip_second_take)
  then have "sorted (take 1 (takeWhile (\<lambda>d. d \<le> today) ?cd)
      @ drop 2 (takeWhile (\<lambda>d. d \<le> today) ?cd))"
    by (simp only: takeWhile_eq_take [symmetric])
  then have "sorted (take 1 (map date ?T) @ drop 2 (map date ?T))"
    by (simp only: truncatedEvents_dates)
  then show ?thesis
    by (simp only: take_map drop_map map_append)
qed

section \<open>Pickup date validation and the create-status-page operation\<close>

text \<open>
  \<open>validatePickupDate\<close> shifts the current date by whole years with
  \<open>d.setFullYear(d.getFullYear() + k)\<close> and cuts dates to their day with
  \<open>setHours(0, 0, 0, 0)\<close>. \<open>setFullYear\<close> keeps the month, the day of the month and the
  time within the day, and counts a day of the month that the new year lacks into the next
  month (29 February becomes 1 March), as \<open>MakeDay\<close> of the language standard does. The
  proleptic Gregorian calendar is computed from the day number: \<open>civilFromDays\<close> gives
  (year, month 1 to 12, day of month) and \<open>daysFromCivil\<close> is its inverse, also defined
  for a day of the month outside the month.
\<close>

definition daysFromCivil :: "int \<Rightarrow> int \<Rightarrow> int \<Rightarrow> int" where
  "daysFromCivil year month day =
     (let y = (if month \<le> 2 then year - 1 else year);
          era = y div 400;
          yoe = y - era * 400;
          doy = (153 * (if 2 < month then month - 3 else month + 9) + 2) div 5 + day - 1;
          doe = yoe * 365 + yoe div 4 - yoe div 100 + doy
      in era * 146097 + doe - 719468)"

definition civilFromDays :: "int \<Rightarrow> int \<times> int \<times> int" where
  "civilFromDays z =
     (let z' = z + 719468;
          era = z' div 146097;
          doe = z' - era * 146097;
          yoe = (doe - doe div 1460 + doe div 36524 - doe div 146096) div 365;
          doy = doe - (365 * yoe + yoe div 4 - yoe div 100);
          mp = (5 * doy + 2) div 153;
          day = doy - (153 * mp + 2) div 5 + 1;
          month = (if mp < 10 then mp + 3 else mp - 9);
          year = yoe + era * 400 + (if month \<le> 2 then 1 else 0)
      in (year, month, day))"

definition setFullYearPlus :: "date \<Rightarrow> int \<Rightarrow> date" where
  "setFullYearPlus t k =
     (case civilFromDays (t div msPerDay) of
        (year, month, day) \<Rightarrow>
          (daysFromCivil (year + k) month 1 + day - 1) * msPerDay + t mod msPerDay)"

definition setHoursZero :: "date \<Rightarrow> date" where
  "setHoursZero t = t - t mod msPerDay"

text \<open>
  The three error messages of \<open>validatePickupDate\<close>, as values; the first message quotes
  the two dates. The result object \<open>{ isValid, error }\<close> is \<open>Valid\<close> or \<open>Invalid error\<close>.
  The function calls \<open>new Date()\<close> for the current time, the parameter \<open>today\<close>.
\<close>

datatype pickup_error =
    PickupBeforeOrder date date
  | PickupTooFarInFuture
  | PickupTooFarInPast

datatype validation = Valid | Invalid pickup_error

fun isValid :: "validation \<Rightarrow> bool" where
  "isValid Valid = True"
| "isValid (Invalid e) = False"

definition validatePickupDate :: "date \<Rightarrow> date option \<Rightarrow> date \<Rightarrow> validation" where
  "validatePickupDate today pickupDate orderCreatedAt =
     (case pickupDate of
        None \<Rightarrow> Valid
      | Some p \<Rightarrow>
          (let pickupDateObj = setHoursZero p;
               orderDateObj = setHoursZero orderCreatedAt
           in if pickupDateObj < orderDateObj
              then Invalid (PickupBeforeOrder pickupDateObj orderDateObj)
              else (let oneYearFromNow = setHoursZero (setFullYearPlus today 1)
                    in if pickupDateObj > oneYearFromNow then Invalid PickupTooFarInFuture
                       else (let twoYearsAgo = setHoursZero (setFullYearPlus today (- 2))
                             in if pickupDateObj < twoYearsAgo then Invalid PickupTooFarInPast
                                else Valid))))"

text \<open>
  The handler of \<open>POST /api/create-status-page\<close>, after authentication. Its
  collaborators are inputs (\<open>environment\<close>): the results of \<open>fetchShopifyOrder\<close> (an
  error, or the order) and \<open>fetchOrderMetafields\<close> (the replacement tracking metafield, if
  any), the clock, the random draws of the synthesizer and the random page id. The store
  \<open>tempStatusPages\<close> is passed in and returned. \<open>calls\<close> records, in order, which of the
  source's functions the handler has called when it responds. Fields of the order, the
  page and the responses that play no part in the claims (names, addresses, the page URL,
  timestamps) are left out; fields whose names other records already use carry a prefix.
  The handler's \<open>catch\<close> branch (status 500) is not modelled: nothing in the model throws.
  The timer that later deletes an unsaved page is outside the handler's response.
\<close>

record order =
  order_id :: nat
  orderNumber :: string
  createdAt :: date
  order_isDelivered :: bool
  order_deliveryDate :: "date option"
  order_fulfillments :: "fulfillment list"

record metafield =
  metafield_value :: string
  updated_at :: "date option"

record request_body =
  body_orderNumber :: string
  body_trackingNumber :: string
  body_pickupDate :: "date option"

record environment =
  now :: date
  random :: randomness
  fetchShopifyOrder :: "string \<Rightarrow> string + order"
  fetchOrderMetafields :: "nat \<Rightarrow> metafield option"
  randomPageId :: string

record status_page =
  page_orderNumber :: string
  page_trackingNumber :: string
  page_carrier :: carrier_info
  page_isDelivered :: bool
  page_deliveryDate :: "date option"
  page_events :: "tracking_event list"
  page_customPickupDate :: "date option"
  page_isReplacementTracking :: bool
  page_saved :: bool

datatype rejection =
    MissingFields
  | OrderNotFound string
  | TrackingMismatch string
  | InvalidPickupDate pickup_error

datatype response = Rejected nat rejection | Created string status_page

datatype call =
    FetchShopifyOrder
  | FetchOrderMetafields
  | ValidatePickupDate
  | DetectCarrier
  | GenerateEvents
  | StorePage

record outcome =
  response :: response
  tempStatusPages :: "string \<rightharpoonup> status_page"
  calls :: "call list"

text \<open>
  \<open>getMainTrackingNumber\<close>: the first fulfillment with a truthy \<open>tracking_number\<close> (a
  non-empty string) or a non-empty \<open>tracking_numbers\<close> decides.
\<close>

fun firstTrackingNumber :: "fulfillment list \<Rightarrow> string option" where
  "firstTrackingNumber [] = None"
| "firstTrackingNumber (f # fs) =
     (case tracking_number f of
        Some (c # cs) \<Rightarrow> Some (c # cs)
      | _ \<Rightarrow>
          (case tracking_numbers f of
             Some (n # ns) \<Rightarrow> Some n
           | _ \<Rightarrow> firstTrackingNumber fs))"

definition getMainTrackingNumber :: "order \<Rightarrow> string option" where
  "getMainTrackingNumber order = firstTrackingNumber (order_fulfillments order)"

text \<open>
  The three-way match of the tracking number: the replacement metafield's value (then
  the label date is its \<open>updated_at\<close>), the main tracking number, or neither.
\<close>

definition matchTracking ::
  "metafield option \<Rightarrow> string option \<Rightarrow> string \<Rightarrow> (bool \<times> date option) option" where
  "matchTracking replacementTrackingMetafield mainTrackingNumber trackingNumber =
     (if (case replacementTrackingMetafield of
            Some m \<Rightarrow> trackingNumber = metafield_value m
          | None \<Rightarrow> False)
      then Some (True, case replacementTrackingMetafield of Some m \<Rightarrow> updated_at m | None \<Rightarrow> None)
      else if (case mainTrackingNumber of
                 Some t \<Rightarrow> t \<noteq> [] \<and> trackingNumber = t
               | None \<Rightarrow> False)
      then Some (False, None)
      else None)"

definition effectivePickupDate :: "date option \<Rightarrow> bool \<Rightarrow> date option \<Rightarrow> date option" where
  "effectivePickupDate pickupDate isReplacementTracking labelCreatedDate =
     (if isReplacementTracking \<and> labelCreatedDate \<noteq> None then labelCreatedDate else pickupDate)"

definition createStatusPage ::
  "environment \<Rightarrow> (string \<rightharpoonup> status_page) \<Rightarrow> request_body \<Rightarrow> outcome" where
  "createStatusPage env pages body =
     (if body_orderNumber body = [] \<or> body_trackingNumber body = []
      then \<lparr>response = Rejected 400 MissingFields, tempStatusPages = pages, calls = []\<rparr>
      else
        (case fetchShopifyOrder env (body_orderNumber body) of
           Inl err \<Rightarrow>
             \<lparr>response = Rejected 404 (OrderNotFound err), tempStatusPages = pages,
              calls = [FetchShopifyOrder]\<rparr>
         | Inr order \<Rightarrow>
             (let replacementTrackingMetafield = fetchOrderMetafields env (order_id order);
                  mainTrackingNumber = getMainTrackingNumber order
              in case matchTracking replacementTrackingMetafield mainTrackingNumber
                        (body_trackingNumber body) of
                   None \<Rightarrow>
                     \<lparr>response = Rejected 400 (TrackingMismatch (body_trackingNumber body)),
                      tempStatusPages = pages,
                      calls = [FetchShopifyOrder, FetchOrderMetafields]\<rparr>
                 | Some (isReplacementTracking, labelCreatedDate) \<Rightarrow>
                     (let effective =
                            effectivePickupDate (body_pickupDate body) isReplacementTracking
                              labelCreatedDate
                      in case validatePickupDate (now env) effective (createdAt order) of
                           Invalid e \<Rightarrow>
                             \<lparr>response = Rejected 400 (InvalidPickupDate e),
                              tempStatusPages = pages,
                              calls = [FetchShopifyOrder, FetchOrderMetafields, ValidatePickupDate]\<rparr>
                         | Valid \<Rightarrow>
                             (let carrierInfo = detectCarrierAndGenerateUrl (body_trackingNumber body);
                                  trackingEvents =
                                    generateRealisticTrackingEventsWithFulfillment (now env)
                                      (random env) (createdAt order) (order_isDelivered order)
                                      (order_deliveryDate order) (order_fulfillments order) effective;
                                  statusPageData =
                                    \<lparr>page_orderNumber = orderNumber order,
                                     page_trackingNumber = body_trackingNumber body,
                                     page_carrier = carrierInfo,
                                     page_isDelivered = order_isDelivered order,
                                     page_deliveryDate = order_deliveryDate order,
                                     page_events = trackingEvents,
                                     page_customPickupDate = effective,
                                     page_isReplacementTracking = isReplacementTracking,
                                     page_saved = False\<rparr>;
                                  pageId = randomPageId env
                              in \<lparr>response = Created pageId statusPageData,
                                  tempStatusPages = pages(pageId \<mapsto> statusPageData),
                                  calls = [FetchShopifyOrder, FetchOrderMetafields, ValidatePickupDate,
                                           DetectCarrier, GenerateEvents, StorePage]\<rparr>)))))"

text \<open>Day granularity: the number of the (UTC) day a time value lies in.\<close>

definition dayOf :: "date \<Rightarrow> int" where
  "dayOf t = t div msPerDay"

lemma setHoursZero_less: "setHoursZero a < setHoursZero b \<longleftrightarrow> dayOf a < dayOf b"
proof -
  have "\<And>t. setHoursZero t = dayOf t * msPerDay"
    by (simp add: setHoursZero_def dayOf_def minus_mod_eq_div_mult)
  then show ?thesis
    using msPerDay_pos by simp
qed

lemma validatePickupDate_invalid_iff:
  "\<not> isValid (validatePickupDate today pickupDate orderCreatedAt) \<longleftrightarrow>
     (\<exists>p. pickupDate = Some p
        \<and> (dayOf p < dayOf orderCreatedAt
           \<or> dayOf (setFullYearPlus today 1) < dayOf p
           \<or> dayOf p < dayOf (setFullYearPlus today (- 2))))"
  by (cases pickupDate) (auto simp: validatePickupDate_def Let_def setHoursZero_less)

lemma createStatusPage_invalid_pickup:
  assumes "body_orderNumber body \<noteq> []" "body_trackingNumber body \<noteq> []"
    and "fetchShopifyOrder env (body_orderNumber body) = Inr order"
    and "matchTracking (fetchOrderMetafields env (order_id order))
           (getMainTrackingNumber order) (body_trackingNumber body)
         = Some (isReplacementTracking, labelCreatedDate)"
    and "validatePickupDate (now env)
           (effectivePickupDate (body_pickupDate body) isReplacementTracking labelCreatedDate)
           (createdAt order) = Invalid e"
  shows "createStatusPage env pages body =
     \<lparr>response = Rejected 400 (InvalidPickupDate e), tempStatusPages = pages,
      calls = [FetchShopifyOrder, FetchOrderMetafields, ValidatePickupDate]\<rparr>"
  using assms by (simp add: createStatusPage_def Let_def)

lemma createStatusPage_rejected_keeps_pages:
  "response (createStatusPage env pages body) = Rejected code r \<Longrightarrow>
     tempStatusPages (createStatusPage env pages body) = pages
     \<and> GenerateEvents \<notin> set (calls (createStatusPage env pages body))
     \<and> StorePage \<notin> set (calls (createStatusPage env pages body))"
  by (auto simp: createStatusPage_def Let_def split: if_splits sum.splits option.splits
      validation.splits)

section \<open>Claims\<close>

subsection \<open>Claims about the business-day calculator\<close>

text \<open>
  C5, as stated, fails: for \<open>n = 0\<close> the loop body never runs and the input date is
  returned unchanged, also when it is a Saturday. 2024-01-06T12:00:00Z (time value
  1704542400000) is a Saturday.
\<close>

theorem C5_addBusinessDays_zero_on_saturday:
  "addBusinessDays 1704542400000 0 = 1704542400000
    \<and> getDay (addBusinessDays 1704542400000 0) = 6"
  by (simp add: addBusinessDays_0 getDay_def msPerDay_def)

text \<open>
  C5, amended: for every date \<open>d\<close> and every \<open>n \<ge> 1\<close>, \<open>addBusinessDays d n\<close> does not
  fall on a Saturday or Sunday; for \<open>n = 0\<close> it is \<open>d\<close> unchanged; and for every \<open>n \<ge> 0\<close>
  the number of business days strictly after \<open>d\<close> and up to and including the result is \<open>n\<close>.
\<close>

theorem C5_addBusinessDays_business_and_count:
  "(1 \<le> n \<longrightarrow> getDay (addBusinessDays d n) \<noteq> 0 \<and> getDay (addBusinessDays d n) \<noteq> 6)
    \<and> addBusinessDays d 0 = d
    \<and> countBusinessDaysBetween d (addBusinessDays d n) = n"
  using addBusinessDays_business [of n d] addBusinessDays_count [of d n]
  by (simp add: isBusinessDay_def addBusinessDays_0)

text \<open>Three business days after Friday 2024-01-05 is Wednesday 2024-01-10.\<close>

theorem C5_addBusinessDays_witness:
  "addBusinessDays 1704412800000 3 = 1704844800000
    \<and> getDay (addBusinessDays 1704412800000 3) = 3
    \<and> countBusinessDaysBetween 1704412800000 (addBusinessDays 1704412800000 3) = 3"
proof -
  have v: "addBusinessDays 1704412800000 3 = 1704844800000"
    by code_simp
  have "getDay 1704844800000 = 3"
    by (simp add: getDay_def msPerDay_def)
  then show ?thesis
    using C5_addBusinessDays_business_and_count [of 3 1704412800000] v by simp
qed

text \<open>
  C6: for every date \<open>d\<close> on a business day and every \<open>n \<ge> 0\<close>,
  \<open>addBusinessDays (subtractBusinessDays d n) n\<close> is \<open>d\<close> itself: the same time value,
  hence the same calendar date and time of day.
\<close>

theorem C6_add_after_subtract_is_identity:
  "getDay d \<noteq> 0 \<and> getDay d \<noteq> 6 \<Longrightarrow> addBusinessDays (subtractBusinessDays d n) n = d"
  using add_subtract_inverse [of d n] by (simp add: isBusinessDay_def)

text \<open>Monday 2024-01-08, three business days back (Wednesday 2024-01-03) and forth.\<close>

theorem C6_add_after_subtract_witness:
  "getDay 1704672000000 = 1
    \<and> subtractBusinessDays 1704672000000 3 = 1704240000000
    \<and> addBusinessDays 1704240000000 3 = 1704672000000"
proof -
  have g: "getDay 1704672000000 = 1"
    by (simp add: getDay_def msPerDay_def)
  have s: "subtractBusinessDays 1704672000000 3 = 1704240000000"
    by code_simp
  show ?thesis
    using C6_add_after_subtract_is_identity [of 1704672000000 3] g s by simp
qed

text \<open>
  C10: for every date \<open>d\<close> and every \<open>n \<ge> 1\<close>, \<open>subtractBusinessDays d n\<close> does not fall
  on a Saturday or Sunday; for \<open>n = 0\<close> it returns the input date unchanged.
\<close>

theorem C10_subtractBusinessDays_business:
  "(1 \<le> n \<longrightarrow> getDay (subtractBusinessDays d n) \<noteq> 0 \<and> getDay (subtractBusinessDays d n) \<noteq> 6)
    \<and> subtractBusinessDays d 0 = d"
  using subtractBusinessDays_business [of n d]
  by (simp add: isBusinessDay_def subtractBusinessDays_0)

text \<open>One business day before Monday 2024-01-08 is Friday 2024-01-05.\<close>

theorem C10_subtractBusinessDays_witness:
  "subtractBusinessDays 1704672000000 1 = 1704412800000
    \<and> getDay (subtractBusinessDays 1704672000000 1) = 5
    \<and> subtractBusinessDays 1704672000000 0 = 1704672000000"
proof -
  have v: "subtractBusinessDays 1704672000000 1 = 1704412800000"
    by code_simp
  have "getDay 1704412800000 = 5"
    by (simp add: getDay_def msPerDay_def)
  then show ?thesis
    using C10_subtractBusinessDays_business [of 1 1704672000000] v by simp
qed


subsection \<open>Claims about the carrier classifier\<close>

lemma detectCarrier_cases:
  "detectCarrierAndGenerateUrl s =
    (if spec_ups s then
       \<lparr>carrier = ''UPS'',
        trackingUrl = ''https://www.ups.com/track?track=yes&trackNums='' @ s,
        carrierCode = ''UPS''\<rparr>
     else if spec_usps s then
       \<lparr>carrier = ''USPS'',
        trackingUrl = ''https://tools.usps.com/go/TrackConfirmAction?tLabels='' @ s,
        carrierCode = ''USPS''\<rparr>
     else if spec_fedex s then
       \<lparr>carrier = ''FedEx'',
        trackingUrl = ''https://www.fedex.com/fedextrack/?tracknumber='' @ s,
        carrierCode = ''FedEx''\<rparr>
     else if spec_dhl s then
       \<lparr>carrier = ''DHL'',
        trackingUrl = ''https://www.dhl.com/us-en/home/tracking.html?tracking-id='' @ s,
        carrierCode = ''DHL''\<rparr>
     else if spec_amazon s then
       \<lparr>carrier = ''Amazon Logistics'',
        trackingUrl = ''https://track.amazon.com/tracking/'' @ s,
        carrierCode = ''Amazon''\<rparr>
     else
       \<lparr>carrier = ''Carrier'',
        trackingUrl = ''https://www.google.com/search?q=track+package+'' @ s,
        carrierCode = ''UNKNOWN''\<rparr>)"
  by (simp add: detectCarrierAndGenerateUrl_def carriers_def test_upsPattern test_uspsPattern
      test_fedexPattern test_dhlPattern test_amazonPattern)

lemma digits14_not_ups_usps:
  assumes "list_all isDigit s" "length s = 14"
  shows "\<not> spec_ups s" "\<not> spec_usps s" "spec_fedex s"
  using assms by (simp_all add: spec_ups_def spec_usps_def spec_fedex_def)

text \<open>
  C4: for every string, \<open>detectCarrierAndGenerateUrl\<close> returns the entry of the first
  rule, in the order UPS, USPS, FedEx, DHL, Amazon, whose shape the string has, and the
  fallback (carrier \<open>Carrier\<close>, code \<open>UNKNOWN\<close>, a Google search URL ending in the tracking
  number) when it has none of the shapes. In particular a UPS-shaped string gives \<open>UPS\<close>,
  14 digits give \<open>FedEx\<close>, and a string of both the USPS and the FedEx shape gives \<open>USPS\<close>.
  The function has no failing branch: the model is a total function without an error
  value, as the source has no \<open>throw\<close> and calls nothing that throws on a string.
\<close>

theorem C4_detectCarrier:
  "detectCarrierAndGenerateUrl s =
    (if spec_ups s then
       \<lparr>carrier = ''UPS'',
        trackingUrl = ''https://www.ups.com/track?track=yes&trackNums='' @ s,
        carrierCode = ''UPS''\<rparr>
     else if spec_usps s then
       \<lparr>carrier = ''USPS'',
        trackingUrl = ''https://tools.usps.com/go/TrackConfirmAction?tLabels='' @ s,
        carrierCode = ''USPS''\<rparr>
     else if spec_fedex s then
       \<lparr>carrier = ''FedEx'',
        trackingUrl = ''https://www.fedex.com/fedextrack/?tracknumber='' @ s,
        carrierCode = ''FedEx''\<rparr>
     else if spec_dhl s then
       \<lparr>carrier = ''DHL'',
        trackingUrl = ''https://www.dhl.com/us-en/home/tracking.html?tracking-id='' @ s,
        carrierCode = ''DHL''\<rparr>
     else if spec_amazon s then
       \<lparr>carrier = ''Amazon Logistics'',
        trackingUrl = ''https://track.amazon.com/tracking/'' @ s,
        carrierCode = ''Amazon''\<rparr>
     else
       \<lparr>carrier = ''Carrier'',
        trackingUrl = ''https://www.google.com/search?q=track+package+'' @ s,
        carrierCode = ''UNKNOWN''\<rparr>)
   \<and> (spec_ups s \<longrightarrow> carrierCode (detectCarrierAndGenerateUrl s) = ''UPS'')
   \<and> (list_all isDigit s \<and> length s = 14 \<longrightarrow>
        carrierCode (detectCarrierAndGenerateUrl s) = ''FedEx'')
   \<and> (spec_usps s \<and> spec_fedex s \<longrightarrow> carrierCode (detectCarrierAndGenerateUrl s) = ''USPS'')
   \<and> (\<not> spec_ups s \<and> \<not> spec_usps s \<and> \<not> spec_fedex s \<and> \<not> spec_dhl s \<and> \<not> spec_amazon s \<longrightarrow>
        detectCarrierAndGenerateUrl s =
          \<lparr>carrier = ''Carrier'',
           trackingUrl = ''https://www.google.com/search?q=track+package+'' @ s,
           carrierCode = ''UNKNOWN''\<rparr>)"
proof (intro conjI impI)
  show "spec_ups s \<Longrightarrow> carrierCode (detectCarrierAndGenerateUrl s) = ''UPS''"
    by (simp add: detectCarrier_cases)
next
  assume "list_all isDigit s \<and> length s = 14"
  then show "carrierCode (detectCarrierAndGenerateUrl s) = ''FedEx''"
    using digits14_not_ups_usps [of s] by (simp add: detectCarrier_cases)
next
  assume "spec_usps s \<and> spec_fedex s"
  moreover have "spec_fedex s \<Longrightarrow> \<not> spec_ups s"
    by (auto simp: spec_fedex_def spec_ups_def)
  ultimately show "carrierCode (detectCarrierAndGenerateUrl s) = ''USPS''"
    by (simp add: detectCarrier_cases)
qed (simp_all add: detectCarrier_cases)


theorem C4_detectCarrier_witness:
  "spec_ups ''1Z12345E0205271688''
   \<and> carrierCode (detectCarrierAndGenerateUrl ''1Z12345E0205271688'') = ''UPS''
   \<and> list_all isDigit ''12345678901234'' \<and> length ''12345678901234'' = 14
   \<and> carrierCode (detectCarrierAndGenerateUrl ''12345678901234'') = ''FedEx''
   \<and> spec_usps ''94001234567890123456'' \<and> spec_fedex ''94001234567890123456''
   \<and> carrierCode (detectCarrierAndGenerateUrl ''94001234567890123456'') = ''USPS''
   \<and> detectCarrierAndGenerateUrl ''abc'' =
        \<lparr>carrier = ''Carrier'',
         trackingUrl = ''https://www.google.com/search?q=track+package+abc'',
         carrierCode = ''UNKNOWN''\<rparr>"
proof -
  have 1: "spec_ups ''1Z12345E0205271688''"
    by code_simp
  have 2: "list_all isDigit ''12345678901234'' \<and> length ''12345678901234'' = 14"
    by code_simp
  have 3: "spec_usps ''94001234567890123456'' \<and> spec_fedex ''94001234567890123456''"
    by code_simp
  have 4: "\<not> spec_ups ''abc'' \<and> \<not> spec_usps ''abc'' \<and> \<not> spec_fedex ''abc'' \<and> \<not> spec_dhl ''abc''
      \<and> \<not> spec_amazon ''abc''"
    by code_simp
  note a = C4_detectCarrier [of "''1Z12345E0205271688''", THEN conjunct2, THEN conjunct1,
      rule_format, OF 1]
  note b = C4_detectCarrier [of "''12345678901234''", THEN conjunct2, THEN conjunct2,
      THEN conjunct1, rule_format, OF 2]
  note c = C4_detectCarrier [of "''94001234567890123456''", THEN conjunct2, THEN conjunct2,
      THEN conjunct2, THEN conjunct1, rule_format, OF 3]
  note d = C4_detectCarrier [of "''abc''", THEN conjunct2, THEN conjunct2, THEN conjunct2,
      THEN conjunct2, rule_format, OF 4]
  show ?thesis
    using 1 2 3 a b c d by simp
qed


subsection \<open>Claims about the timeline synthesizer\<close>

text \<open>
  C1 (the dates of the events before Delivered are non-decreasing) fails on the code.
  Order Processed and Label Created are both drawn from the order date, independently
  (lines 409 and 370), and nothing orders them. For an order created on Tuesday
  2024-01-02T12:00:00Z (time value 1704196800000), not delivered, without fulfillments and
  without custom pickup date, synthesised on 2024-03-01T12:00:00Z, with the draws that put
  Order Processed two business days and Label Created one business day after the order,
  the ten events are dated: Order Confirmed Tue 01-02, Order Processed Thu 01-04, Label
  Created Wed 01-03, Package Picked Up Thu 01-04, and so on.
\<close>

theorem C1_order_processed_after_label_created:
  "map date (generateRealisticTrackingEventsWithFulfillment 1709294400000
       \<lparr>draw359 = 0, draw370 = 0, draw373 = 0, draw387 = 0, draw409 = 1, draw429 = 0, draw434 = 0,
        draw439 = 0, draw444 = 0, draw449 = 0\<rparr>
       1704196800000 False None [] None)
     = [1704196800000, 1704369600000, 1704283200000, 1704369600000, 1704456000000, 1704888000000,
        1705320000000, 1705579200000, 1706011200000, 1706270400000]
   \<and> tracking_event.status ((generateRealisticTrackingEventsWithFulfillment 1709294400000
       \<lparr>draw359 = 0, draw370 = 0, draw373 = 0, draw387 = 0, draw409 = 1, draw429 = 0, draw434 = 0,
        draw439 = 0, draw444 = 0, draw449 = 0\<rparr>
       1704196800000 False None [] None) ! 1) = ''Order Processed''
   \<and> tracking_event.status ((generateRealisticTrackingEventsWithFulfillment 1709294400000
       \<lparr>draw359 = 0, draw370 = 0, draw373 = 0, draw387 = 0, draw409 = 1, draw429 = 0, draw434 = 0,
        draw439 = 0, draw444 = 0, draw449 = 0\<rparr>
       1704196800000 False None [] None) ! 2) = ''Label Created''
   \<and> date ((generateRealisticTrackingEventsWithFulfillment 1709294400000
       \<lparr>draw359 = 0, draw370 = 0, draw373 = 0, draw387 = 0, draw409 = 1, draw429 = 0, draw434 = 0,
        draw439 = 0, draw444 = 0, draw449 = 0\<rparr>
       1704196800000 False None [] None) ! 2) < date ((generateRealisticTrackingEventsWithFulfillment 1709294400000
       \<lparr>draw359 = 0, draw370 = 0, draw373 = 0, draw387 = 0, draw409 = 1, draw429 = 0, draw434 = 0,
        draw439 = 0, draw444 = 0, draw449 = 0\<rparr>
       1704196800000 False None [] None) ! 1)
   \<and> \<not> sorted (map date (generateRealisticTrackingEventsWithFulfillment 1709294400000
       \<lparr>draw359 = 0, draw370 = 0, draw373 = 0, draw387 = 0, draw409 = 1, draw429 = 0, draw434 = 0,
        draw439 = 0, draw444 = 0, draw449 = 0\<rparr>
       1704196800000 False None [] None))"
  by code_simp

text \<open>
  C2: the returned sequence is the truncated list followed by the Delivered event, which
  is present exactly when \<open>isDelivered\<close> holds and a delivery date is given, and carries
  that date as it is, whatever \<open>today\<close> is; no event of the truncated list is dated after
  \<open>today\<close> or is a Delivered event; and the dates of the truncated list are the longest
  initial stretch of the computed dates in which none is after \<open>today\<close>: at the first
  computed date after \<open>today\<close> the emission stops.
\<close>

theorem C2_no_future_events:
  "generateRealisticTrackingEventsWithFulfillment today rnd orderDate delivered deliveryDate fs cpd =
     truncatedEvents today rnd orderDate delivered fs cpd
     @ (if delivered
        then (case deliveryDate of
                Some d \<Rightarrow> [\<lparr>status = ''Delivered'', date = d, completed = True, current = False,
                            isDelivered = True\<rparr>]
              | None \<Rightarrow> [])
        else [])
   \<and> (\<forall>e\<in>set (truncatedEvents today rnd orderDate delivered fs cpd).
         date e \<le> today \<and> tracking_event.status e \<noteq> ''Delivered'')
   \<and> map date (truncatedEvents today rnd orderDate delivered fs cpd) =
       takeWhile (\<lambda>d. d \<le> today)
         (computedDates orderDate 0
            (eventTemplates rnd orderDate (fst (labelAndPickupDates rnd orderDate fs cpd))
               (snd (labelAndPickupDates rnd orderDate fs cpd))))"
proof (intro conjI ballI)
  fix e
  assume "e \<in> set (truncatedEvents today rnd orderDate delivered fs cpd)"
  then show "date e \<le> today" and "tracking_event.status e \<noteq> ''Delivered''"
    by (rule truncatedEvents_props)+
qed (rule generate_append, rule truncatedEvents_dates)

text \<open>
  The examples from here on use an order created on Monday 2024-01-01T00:00:00Z (time
  value 1704067200000), no fulfillments, and the draws that put Order Processed two
  business days and Label Created one business day after the order.

  Synthesised on Friday 2024-01-05, delivered on 2024-02-01 (in the future): five events up
  to Thursday 01-04, none for In Transit (Tuesday 01-09), then Delivered with its date.
\<close>

theorem C2_no_future_events_witness:
  "map date (truncatedEvents 1704412800000
       \<lparr>draw359 = 0, draw370 = 0, draw373 = 0, draw387 = 0, draw409 = 1, draw429 = 0, draw434 = 0,
        draw439 = 0, draw444 = 0, draw449 = 0\<rparr>
       1704067200000 True [] None)
     = [1704067200000, 1704240000000, 1704153600000, 1704240000000, 1704326400000]
   \<and> map date (generateRealisticTrackingEventsWithFulfillment 1704412800000
       \<lparr>draw359 = 0, draw370 = 0, draw373 = 0, draw387 = 0, draw409 = 1, draw429 = 0, draw434 = 0,
        draw439 = 0, draw444 = 0, draw449 = 0\<rparr>
       1704067200000 True (Some 1706745600000) [] None)
     = [1704067200000, 1704240000000, 1704153600000, 1704240000000, 1704326400000, 1706745600000]"
proof -
  let ?rnd = "\<lparr>draw359 = 0, draw370 = 0, draw373 = 0, draw387 = 0, draw409 = 1, draw429 = 0, draw434 = 0,
        draw439 = 0, draw444 = 0, draw449 = 0\<rparr>"
  note inst = C2_no_future_events [of 1704412800000 ?rnd 1704067200000 True "Some 1706745600000" "[]" None]
  have c: "takeWhile (\<lambda>d. d \<le> 1704412800000)
         (computedDates 1704067200000 0
            (eventTemplates ?rnd 1704067200000
               (fst (labelAndPickupDates ?rnd 1704067200000 [] None))
               (snd (labelAndPickupDates ?rnd 1704067200000 [] None))))
       = [1704067200000, 1704240000000, 1704153600000, 1704240000000, 1704326400000]"
    by code_simp
  have T: "map date (truncatedEvents 1704412800000 ?rnd 1704067200000 True [] None)
     = [1704067200000, 1704240000000, 1704153600000, 1704240000000, 1704326400000]"
    using inst [THEN conjunct2, THEN conjunct2] unfolding c .
  have "map date (generateRealisticTrackingEventsWithFulfillment 1704412800000 ?rnd 1704067200000 True
       (Some 1706745600000) [] None)
     = map date (truncatedEvents 1704412800000 ?rnd 1704067200000 True [] None) @ [1706745600000]"
    using inst [THEN conjunct1] by simp
  then show ?thesis
    using T by simp
qed

text \<open>
  C3: at most one event of the returned sequence has \<open>current = true\<close>, and one has only if
  \<open>isDelivered\<close> is false; the returned sequence starts with the truncated list, whose
  events have \<open>completed = true\<close> and \<open>current = false\<close>, except that its last event has
  \<open>completed = false\<close> and \<open>current = true\<close> when the shipment is not delivered; what
  follows the truncated list is the Delivered event (completed, not current).
\<close>

theorem C3_completion_flags:
  "length (filter current
      (generateRealisticTrackingEventsWithFulfillment today rnd orderDate delivered deliveryDate fs cpd)) \<le> 1
   \<and> ((\<exists>e\<in>set (generateRealisticTrackingEventsWithFulfillment today rnd orderDate delivered
            deliveryDate fs cpd). current e) \<longrightarrow> \<not> delivered)
   \<and> (\<forall>i<length (truncatedEvents today rnd orderDate delivered fs cpd).
         generateRealisticTrackingEventsWithFulfillment today rnd orderDate delivered deliveryDate fs cpd ! i
           = truncatedEvents today rnd orderDate delivered fs cpd ! i
         \<and> completed (truncatedEvents today rnd orderDate delivered fs cpd ! i)
           = (\<not> (i = length (truncatedEvents today rnd orderDate delivered fs cpd) - 1 \<and> \<not> delivered))
         \<and> current (truncatedEvents today rnd orderDate delivered fs cpd ! i)
           = (i = length (truncatedEvents today rnd orderDate delivered fs cpd) - 1 \<and> \<not> delivered))
   \<and> (\<forall>e\<in>set (drop (length (truncatedEvents today rnd orderDate delivered fs cpd))
         (generateRealisticTrackingEventsWithFulfillment today rnd orderDate delivered deliveryDate fs cpd)).
         tracking_event.status e = ''Delivered'' \<and> completed e \<and> \<not> current e \<and> isDelivered e)"
proof -
  let ?T = "truncatedEvents today rnd orderDate delivered fs cpd"
  let ?G = "generateRealisticTrackingEventsWithFulfillment today rnd orderDate delivered deliveryDate fs cpd"
  obtain D where G: "?G = ?T @ D"
    and D: "\<forall>e\<in>set D. tracking_event.status e = ''Delivered'' \<and> completed e \<and> \<not> current e \<and> isDelivered e"
  proof -
    from generate_cases [of today rnd orderDate delivered deliveryDate fs cpd]
    consider "?G = ?T @ []" | d where "?G = ?T @ [deliveredEvent d]"
      by auto
    then show ?thesis
    proof cases
      case 1
      then show ?thesis by (intro that [of "[]"]) simp_all
    next
      case (2 d)
      then show ?thesis by (intro that [of "[deliveredEvent d]"]) (simp_all add: deliveredEvent_flags)
    qed
  qed
  have fD: "filter current D = []"
    using D by (simp only: filter_empty_conv) blast
  have 1: "length (filter current ?G) \<le> 1"
    unfolding G filter_append fD using truncatedEvents_current [of today rnd orderDate delivered fs cpd]
    by simp
  have 2: "(\<exists>e\<in>set ?G. current e) \<longrightarrow> \<not> delivered"
    unfolding G using D truncatedEvents_current_undelivered [of _ today rnd orderDate delivered fs cpd]
    by (metis Un_iff set_append)
  have 3: "\<forall>i<length ?T. ?G ! i = ?T ! i
         \<and> completed (?T ! i) = (\<not> (i = length ?T - 1 \<and> \<not> delivered))
         \<and> current (?T ! i) = (i = length ?T - 1 \<and> \<not> delivered)"
    using truncatedEvents_flags [of _ today rnd orderDate delivered fs cpd]
    by (simp add: G nth_append)
  have 4: "\<forall>e\<in>set (drop (length ?T) ?G).
         tracking_event.status e = ''Delivered'' \<and> completed e \<and> \<not> current e \<and> isDelivered e"
    unfolding G using D by simp
  from 1 2 3 4 show ?thesis by blast
qed

theorem C3_completion_flags_witness:
  "length (truncatedEvents 1709251200000
       \<lparr>draw359 = 0, draw370 = 0, draw373 = 0, draw387 = 0, draw409 = 1, draw429 = 0, draw434 = 0,
        draw439 = 0, draw444 = 0, draw449 = 0\<rparr>
       1704067200000 False [] None) = 10
   \<and> current (generateRealisticTrackingEventsWithFulfillment 1709251200000
       \<lparr>draw359 = 0, draw370 = 0, draw373 = 0, draw387 = 0, draw409 = 1, draw429 = 0, draw434 = 0,
        draw439 = 0, draw444 = 0, draw449 = 0\<rparr>
       1704067200000 False None [] None ! 9)
   \<and> \<not> completed (generateRealisticTrackingEventsWithFulfillment 1709251200000
       \<lparr>draw359 = 0, draw370 = 0, draw373 = 0, draw387 = 0, draw409 = 1, draw429 = 0, draw434 = 0,
        draw439 = 0, draw444 = 0, draw449 = 0\<rparr>
       1704067200000 False None [] None ! 9)
   \<and> completed (generateRealisticTrackingEventsWithFulfillment 1709251200000
       \<lparr>draw359 = 0, draw370 = 0, draw373 = 0, draw387 = 0, draw409 = 1, draw429 = 0, draw434 = 0,
        draw439 = 0, draw444 = 0, draw449 = 0\<rparr>
       1704067200000 False None [] None ! 0)
   \<and> \<not> current (generateRealisticTrackingEventsWithFulfillment 1709251200000
       \<lparr>draw359 = 0, draw370 = 0, draw373 = 0, draw387 = 0, draw409 = 1, draw429 = 0, draw434 = 0,
        draw439 = 0, draw444 = 0, draw449 = 0\<rparr>
       1704067200000 False None [] None ! 0)"
proof -
  let ?rnd = "\<lparr>draw359 = 0, draw370 = 0, draw373 = 0, draw387 = 0, draw409 = 1, draw429 = 0,
      draw434 = 0, draw439 = 0, draw444 = 0, draw449 = 0\<rparr>"
  let ?T = "truncatedEvents 1709251200000 ?rnd 1704067200000 False [] None"
  let ?G = "generateRealisticTrackingEventsWithFulfillment 1709251200000 ?rnd 1704067200000 False
      None [] None"
  note inst = C3_completion_flags [of 1709251200000 ?rnd 1704067200000 False None "[]" None,
      THEN conjunct2, THEN conjunct2, THEN conjunct1, rule_format]
  have l: "length ?T = 10"
    by code_simp
  have i9: "9 < length ?T" and i0: "0 < length ?T"
    unfolding l by simp_all
  have g9: "?G ! 9 = ?T ! 9" and g0: "?G ! 0 = ?T ! 0"
    using inst [OF i9] inst [OF i0] by blast+
  have "current (?T ! 9)" "\<not> completed (?T ! 9)"
    using inst [OF i9] unfolding l by simp_all
  moreover have "completed (?T ! 0)" "\<not> current (?T ! 0)"
    using inst [OF i0] unfolding l by simp_all
  ultimately show ?thesis
    unfolding g9 g0 l by blast
qed

text \<open>
  C7: with a custom pickup date \<open>c\<close>, the Label Created date is the order date plus one
  business day when \<open>c\<close> is before or at the order date, and \<open>c\<close> itself otherwise; every
  Label Created event of the returned sequence carries that date.
\<close>

theorem C7_custom_pickup_clamp:
  "fst (labelAndPickupDates rnd orderDate fs (Some c))
     = (if c \<le> orderDate then addBusinessDays orderDate 1 else c)
   \<and> (\<forall>e\<in>set (generateRealisticTrackingEventsWithFulfillment today rnd orderDate delivered
          deliveryDate fs (Some c)).
        tracking_event.status e = ''Label Created'' \<longrightarrow>
        date e = (if c \<le> orderDate then addBusinessDays orderDate 1 else c))"
proof (intro conjI ballI impI)
  show "fst (labelAndPickupDates rnd orderDate fs (Some c))
     = (if c \<le> orderDate then addBusinessDays orderDate 1 else c)"
    by (rule labelCreated_custom)
next
  fix e
  assume e: "e \<in> set (generateRealisticTrackingEventsWithFulfillment today rnd orderDate delivered
          deliveryDate fs (Some c))"
    and s: "tracking_event.status e = ''Label Created''"
  have "e \<in> set (truncatedEvents today rnd orderDate delivered fs (Some c))"
    using e s generate_cases [of today rnd orderDate delivered deliveryDate fs "Some c"]
    by (auto simp: deliveredEvent_flags)
  from labelCreated_event_date [OF this s]
  show "date e = (if c \<le> orderDate then addBusinessDays orderDate 1 else c)"
    by (simp only: labelCreated_custom)
qed

text \<open>
  A custom pickup date equal to the order date gives Label Created on Tuesday 2024-01-02;
  the custom pickup date Thursday 2024-01-04 is used as it is.
\<close>

theorem C7_custom_pickup_clamp_witness:
  "tracking_event.status (generateRealisticTrackingEventsWithFulfillment 1709251200000
       \<lparr>draw359 = 0, draw370 = 0, draw373 = 0, draw387 = 0, draw409 = 1, draw429 = 0, draw434 = 0,
        draw439 = 0, draw444 = 0, draw449 = 0\<rparr>
       1704067200000 False None [] (Some 1704067200000) ! 2) = ''Label Created''
   \<and> date (generateRealisticTrackingEventsWithFulfillment 1709251200000
       \<lparr>draw359 = 0, draw370 = 0, draw373 = 0, draw387 = 0, draw409 = 1, draw429 = 0, draw434 = 0,
        draw439 = 0, draw444 = 0, draw449 = 0\<rparr>
       1704067200000 False None [] (Some 1704067200000) ! 2) = 1704153600000
   \<and> tracking_event.status (generateRealisticTrackingEventsWithFulfillment 1709251200000
       \<lparr>draw359 = 0, draw370 = 0, draw373 = 0, draw387 = 0, draw409 = 1, draw429 = 0, draw434 = 0,
        draw439 = 0, draw444 = 0, draw449 = 0\<rparr>
       1704067200000 False None [] (Some 1704326400000) ! 2) = ''Label Created''
   \<and> date (generateRealisticTrackingEventsWithFulfillment 1709251200000
       \<lparr>draw359 = 0, draw370 = 0, draw373 = 0, draw387 = 0, draw409 = 1, draw429 = 0, draw434 = 0,
        draw439 = 0, draw444 = 0, draw449 = 0\<rparr>
       1704067200000 False None [] (Some 1704326400000) ! 2) = 1704326400000"
proof -
  let ?rnd = "\<lparr>draw359 = 0, draw370 = 0, draw373 = 0, draw387 = 0, draw409 = 1, draw429 = 0, draw434 = 0,
        draw439 = 0, draw444 = 0, draw449 = 0\<rparr>"
  let ?G = "\<lambda>c. generateRealisticTrackingEventsWithFulfillment 1709251200000 ?rnd 1704067200000 False
      None [] (Some c)"
  have a: "addBusinessDays 1704067200000 1 = 1704153600000"
    by code_simp
  have s1: "tracking_event.status (?G 1704067200000 ! 2) = ''Label Created''"
    by code_simp
  have s2: "tracking_event.status (?G 1704326400000 ! 2) = ''Label Created''"
    by code_simp
  have l1: "2 < length (?G 1704067200000)"
    by code_simp
  have l2: "2 < length (?G 1704326400000)"
    by code_simp
  have "date (?G 1704067200000 ! 2) = 1704153600000"
    using C7_custom_pickup_clamp [of ?rnd 1704067200000 "[]" 1704067200000 1709251200000 False None,
        THEN conjunct2, rule_format, OF nth_mem [OF l1] s1] a
    by simp
  moreover have "date (?G 1704326400000 ! 2) = 1704326400000"
    using C7_custom_pickup_clamp [of ?rnd 1704067200000 "[]" 1704326400000 1709251200000 False None,
        THEN conjunct2, rule_format, OF nth_mem [OF l2] s2]
    by simp
  ultimately show ?thesis
    using s1 s2 by simp
qed

text \<open>
  C9: with \<open>isDelivered = true\<close> and no delivery date, no returned event is a Delivered
  event (by status or by flag), none is current, and all are completed.
\<close>

theorem C9_delivered_without_date:
  "\<forall>e\<in>set (generateRealisticTrackingEventsWithFulfillment today rnd orderDate True None fs cpd).
     tracking_event.status e \<noteq> ''Delivered'' \<and> \<not> isDelivered e \<and> \<not> current e \<and> completed e"
proof
  fix e
  let ?E = "emitEvents today orderDate 0
      (eventTemplates rnd orderDate (fst (labelAndPickupDates rnd orderDate fs cpd))
         (snd (labelAndPickupDates rnd orderDate fs cpd)))"
  assume "e \<in> set (generateRealisticTrackingEventsWithFulfillment today rnd orderDate True None fs cpd)"
  then have T: "e \<in> set (truncatedEvents today rnd orderDate True fs cpd)"
    by (simp add: generateRealisticTrackingEventsWithFulfillment_def)
  then have "e \<in> set ?E"
    by (simp add: truncatedEvents_def Let_def markCurrent_delivered)
  then have "\<not> current e \<and> completed e"
    using emitEvents_flags by blast
  then show "tracking_event.status e \<noteq> ''Delivered'' \<and> \<not> isDelivered e \<and> \<not> current e \<and> completed e"
    using truncatedEvents_props(2,3) [OF T] by simp
qed

theorem C9_delivered_without_date_witness:
  "length (generateRealisticTrackingEventsWithFulfillment 1709251200000
       \<lparr>draw359 = 0, draw370 = 0, draw373 = 0, draw387 = 0, draw409 = 1, draw429 = 0, draw434 = 0,
        draw439 = 0, draw444 = 0, draw449 = 0\<rparr>
       1704067200000 True None [] None) = 10
   \<and> tracking_event.status (generateRealisticTrackingEventsWithFulfillment 1709251200000
       \<lparr>draw359 = 0, draw370 = 0, draw373 = 0, draw387 = 0, draw409 = 1, draw429 = 0, draw434 = 0,
        draw439 = 0, draw444 = 0, draw449 = 0\<rparr>
       1704067200000 True None [] None ! 9) = ''Out for Delivery''
   \<and> completed (generateRealisticTrackingEventsWithFulfillment 1709251200000
       \<lparr>draw359 = 0, draw370 = 0, draw373 = 0, draw387 = 0, draw409 = 1, draw429 = 0, draw434 = 0,
        draw439 = 0, draw444 = 0, draw449 = 0\<rparr>
       1704067200000 True None [] None ! 9)
   \<and> \<not> current (generateRealisticTrackingEventsWithFulfillment 1709251200000
       \<lparr>draw359 = 0, draw370 = 0, draw373 = 0, draw387 = 0, draw409 = 1, draw429 = 0, draw434 = 0,
        draw439 = 0, draw444 = 0, draw449 = 0\<rparr>
       1704067200000 True None [] None ! 9)
   \<and> \<not> isDelivered (generateRealisticTrackingEventsWithFulfillment 1709251200000
       \<lparr>draw359 = 0, draw370 = 0, draw373 = 0, draw387 = 0, draw409 = 1, draw429 = 0, draw434 = 0,
        draw439 = 0, draw444 = 0, draw449 = 0\<rparr>
       1704067200000 True None [] None ! 9)"
proof -
  let ?rnd = "\<lparr>draw359 = 0, draw370 = 0, draw373 = 0, draw387 = 0, draw409 = 1, draw429 = 0, draw434 = 0,
        draw439 = 0, draw444 = 0, draw449 = 0\<rparr>"
  let ?G = "generateRealisticTrackingEventsWithFulfillment 1709251200000 ?rnd 1704067200000 True None [] None"
  have l: "length ?G = 10"
    by code_simp
  have s: "tracking_event.status (?G ! 9) = ''Out for Delivery''"
    by code_simp
  have "?G ! 9 \<in> set ?G"
    using l by (intro nth_mem) simp
  from C9_delivered_without_date [of 1709251200000 ?rnd 1704067200000 "[]" None, rule_format, OF this]
  show ?thesis
    using l s by simp
qed


subsection \<open>Claims about the pickup date validation\<close>

text \<open>
  C8: \<open>validatePickupDate\<close> returns an invalid result, which carries its error, exactly
  when a pickup date is given whose day is before the day of the order, after the day one
  year from today, or before the day two years before today. When the validation of the
  handler returns \<open>Invalid e\<close>, the operation answers with status 400 and that error, the
  store of pages is unchanged, and the handler has called neither the synthesizer nor the
  store; and whenever the operation is rejected, no page is stored.
\<close>

theorem C8_invalid_pickup_rejected:
  "(\<not> isValid (validatePickupDate today pickupDate orderCreatedAt) \<longleftrightarrow>
      (\<exists>p. pickupDate = Some p
         \<and> (dayOf p < dayOf orderCreatedAt
            \<or> dayOf (setFullYearPlus today 1) < dayOf p
            \<or> dayOf p < dayOf (setFullYearPlus today (- 2)))))
   \<and> (body_orderNumber body \<noteq> [] \<and> body_trackingNumber body \<noteq> []
        \<and> fetchShopifyOrder env (body_orderNumber body) = Inr order
        \<and> matchTracking (fetchOrderMetafields env (order_id order)) (getMainTrackingNumber order)
              (body_trackingNumber body) = Some (isReplacementTracking, labelCreatedDate)
        \<and> validatePickupDate (now env)
              (effectivePickupDate (body_pickupDate body) isReplacementTracking labelCreatedDate)
              (createdAt order) = Invalid e
      \<longrightarrow> createStatusPage env pages body =
            \<lparr>response = Rejected 400 (InvalidPickupDate e), tempStatusPages = pages,
             calls = [FetchShopifyOrder, FetchOrderMetafields, ValidatePickupDate]\<rparr>)
   \<and> (\<forall>code r. response (createStatusPage env pages body) = Rejected code r \<longrightarrow>
        tempStatusPages (createStatusPage env pages body) = pages
        \<and> GenerateEvents \<notin> set (calls (createStatusPage env pages body))
        \<and> StorePage \<notin> set (calls (createStatusPage env pages body)))"
  using validatePickupDate_invalid_iff [of today pickupDate orderCreatedAt]
    createStatusPage_invalid_pickup [of body env order isReplacementTracking labelCreatedDate e pages]
    createStatusPage_rejected_keeps_pages [of env pages body]
  by blast

text \<open>
  An order created on 2024-01-10 and a pickup date of 2024-01-05, requested on 2024-03-01.
\<close>

theorem C8_invalid_pickup_rejected_witness:
  "validatePickupDate 1709251200000 (Some 1704412800000) 1704900600000
     = Invalid (PickupBeforeOrder 1704412800000 1704844800000)
   \<and> createStatusPage
       \<lparr>now = 1709251200000,
        random = \<lparr>draw359 = 0, draw370 = 0, draw373 = 0, draw387 = 0, draw409 = 1, draw429 = 0,
                  draw434 = 0, draw439 = 0, draw444 = 0, draw449 = 0\<rparr>,
        fetchShopifyOrder = (\<lambda>n. Inr \<lparr>order_id = 1, orderNumber = ''#1001'', createdAt = 1704900600000, order_isDelivered = False,
        order_deliveryDate = None,
        order_fulfillments =
          [\<lparr>tracking_number = Some ''1Z12345E0205271688'', tracking_numbers = None,
            created_at = 1704967200000\<rparr>]\<rparr>),
        fetchOrderMetafields = (\<lambda>i. None),
        randomPageId = ''00112233aabbccdd''\<rparr>
       Map.empty
       \<lparr>body_orderNumber = ''1001'', body_trackingNumber = ''1Z12345E0205271688'',
        body_pickupDate = Some 1704412800000\<rparr>
     = \<lparr>response = Rejected 400 (InvalidPickupDate (PickupBeforeOrder 1704412800000 1704844800000)),
        tempStatusPages = Map.empty,
        calls = [FetchShopifyOrder, FetchOrderMetafields, ValidatePickupDate]\<rparr>"
proof -
  let ?order = "\<lparr>order_id = 1, orderNumber = ''#1001'', createdAt = 1704900600000, order_isDelivered = False,
        order_deliveryDate = None,
        order_fulfillments =
          [\<lparr>tracking_number = Some ''1Z12345E0205271688'', tracking_numbers = None,
            created_at = 1704967200000\<rparr>]\<rparr>"
  let ?env = "\<lparr>now = 1709251200000,
        random = \<lparr>draw359 = 0, draw370 = 0, draw373 = 0, draw387 = 0, draw409 = 1, draw429 = 0,
                  draw434 = 0, draw439 = 0, draw444 = 0, draw449 = 0\<rparr>,
        fetchShopifyOrder = (\<lambda>n. Inr \<lparr>order_id = 1, orderNumber = ''#1001'', createdAt = 1704900600000, order_isDelivered = False,
        order_deliveryDate = None,
        order_fulfillments =
          [\<lparr>tracking_number = Some ''1Z12345E0205271688'', tracking_numbers = None,
            created_at = 1704967200000\<rparr>]\<rparr>),
        fetchOrderMetafields = (\<lambda>i. None),
        randomPageId = ''00112233aabbccdd''\<rparr>"
  let ?body = "\<lparr>body_orderNumber = ''1001'', body_trackingNumber = ''1Z12345E0205271688'',
        body_pickupDate = Some 1704412800000\<rparr>"
  have v: "validatePickupDate 1709251200000 (Some 1704412800000) 1704900600000
     = Invalid (PickupBeforeOrder 1704412800000 1704844800000)"
    by (simp add: validatePickupDate_def setHoursZero_def msPerDay_def)
  have m: "matchTracking (fetchOrderMetafields ?env (order_id ?order)) (getMainTrackingNumber ?order)
      (body_trackingNumber ?body) = Some (False, None)"
    by (simp add: matchTracking_def getMainTrackingNumber_def)
  have pre: "body_orderNumber ?body \<noteq> [] \<and> body_trackingNumber ?body \<noteq> []
        \<and> fetchShopifyOrder ?env (body_orderNumber ?body) = Inr ?order
        \<and> matchTracking (fetchOrderMetafields ?env (order_id ?order)) (getMainTrackingNumber ?order)
              (body_trackingNumber ?body) = Some (False, None)
        \<and> validatePickupDate (now ?env)
              (effectivePickupDate (body_pickupDate ?body) False None)
              (createdAt ?order) = Invalid (PickupBeforeOrder 1704412800000 1704844800000)"
    using v m by (simp add: effectivePickupDate_def)
  from C8_invalid_pickup_rejected [of _ _ _ ?body ?env ?order False None
      "PickupBeforeOrder 1704412800000 1704844800000" Map.empty,
      THEN conjunct2, THEN conjunct1, rule_format, OF pre]
  show ?thesis
    using v by simp
qed

end
